theory Spec2Isabelle
  imports Complex_Main
begin

section \<open>The job registry of the GUI service (gui/server.js)\<close>

text \<open>
  \<^verbatim>\<open>const activeJobs = new Map();\<close> maps a client id to the task object that
  \<^verbatim>\<open>cron.schedule\<close> returned. The keys are JavaScript numbers: the \<^verbatim>\<open>id\<close> column of
  a row, or the result of \<^verbatim>\<open>parseInt(req.params.id)\<close>, which may be \<^verbatim>\<open>NaN\<close>
  (a Map finds \<^verbatim>\<open>NaN\<close> under \<^verbatim>\<open>NaN\<close>).
\<close>

datatype jsnum = Num int | NaN

text \<open>
  A task object of node-cron: the expression it was scheduled with, the client id its
  callback closes over, and whether it still fires (\<^verbatim>\<open>task.stop()\<close> clears the flag).
  The task objects ever created form a heap, a list addressed by position; the position
  is the handle stored in the Map.
\<close>

record cron_task =
  expression :: string
  owner :: jsnum
  running :: bool

text \<open>Thrown \<^verbatim>\<open>Error\<close> objects, by what their message is built from.\<close>

datatype js_error =
    InvalidCron string  \<comment> \<open>\<^verbatim>\<open>Invalid cron expression: "<expression>"\<close>\<close>
  | DbError string      \<comment> \<open>a rejected \<^verbatim>\<open>pool.query\<close>, with its message\<close>

text \<open>Console lines, by their interpolated values.\<close>

datatype log_line =
    LogScheduled jsnum string     \<comment> \<open>\<^verbatim>\<open>Scheduled client <id> - "<expression>"\<close>\<close>
  | WarnBadSchedule int js_error  \<comment> \<open>\<^verbatim>\<open>Bad schedule for client <id>: <message>\<close>\<close>
  | LogRestored nat               \<comment> \<open>\<^verbatim>\<open>Restored <n> scheduled job(s)\<close>\<close>
  | ErrRestoreFailed js_error     \<comment> \<open>\<^verbatim>\<open>Failed to restore schedules: <message>\<close>\<close>

record gui_state =
  tasks :: "cron_task list"
  activeJobs :: "jsnum \<rightharpoonup> nat"
  console :: "log_line list"

definition initial_state :: gui_state where
  "initial_state = \<lparr>tasks = [], activeJobs = Map.empty, console = []\<rparr>"

text \<open>\<^verbatim>\<open>existing.stop()\<close> on the task object behind a handle.\<close>

definition stop_task :: "nat \<Rightarrow> cron_task list \<Rightarrow> cron_task list" where
  "stop_task h ts = (if h < length ts then ts[h := (ts ! h)\<lparr>running := False\<rparr>] else ts)"

text \<open>
  \<^verbatim>\<open>
  function stopJob(clientId) {
    const existing = activeJobs.get(clientId);
    if (existing) {
      existing.stop();
      activeJobs.delete(clientId);
    }
  }\<close>
\<close>

definition stopJob :: "jsnum \<Rightarrow> gui_state \<Rightarrow> gui_state" where
  "stopJob clientId s =
     (case activeJobs s clientId of
        None \<Rightarrow> s
      | Some existing \<Rightarrow>
          s\<lparr>tasks := stop_task existing (tasks s),
            activeJobs := (activeJobs s)(clientId := None)\<rparr>)"

text \<open>
  \<^verbatim>\<open>
  function startJob(clientId, expression) {
    stopJob(clientId);
    if (!cron.validate(expression))
      throw new Error(`Invalid cron expression: "${expression}"`);
    const task = cron.schedule(expression, async () => { ... });
    activeJobs.set(clientId, task);
    console.log(`Scheduled client ${clientId} - "${expression}"`);
  }\<close>
  \<^verbatim>\<open>cron.validate\<close> belongs to node-cron and is a parameter here. A task that
  \<^verbatim>\<open>cron.schedule\<close> returns is started. The function returns the thrown error or
  nothing, and the state it leaves behind in both cases.
\<close>

definition startJob ::
  "(string \<Rightarrow> bool) \<Rightarrow> jsnum \<Rightarrow> string \<Rightarrow> gui_state \<Rightarrow> (js_error + unit) \<times> gui_state" where
  "startJob validate clientId expr s =
     (let s1 = stopJob clientId s in
      if \<not> validate expr then (Inl (InvalidCron expr), s1)
      else
        (Inr (),
         s1\<lparr>tasks := tasks s1 @ [\<lparr>expression = expr, owner = clientId, running = True\<rparr>],
            activeJobs := (activeJobs s1)(clientId \<mapsto> length (tasks s1)),
            console := console s1 @ [LogScheduled clientId expr]\<rparr>))"

text \<open>\<^verbatim>\<open>activeJobs.has(id)\<close>, the \<^verbatim>\<open>job_active\<close> flag of the responses.\<close>

definition isActive :: "gui_state \<Rightarrow> jsnum \<Rightarrow> bool" where
  "isActive s clientId = (activeJobs s clientId \<noteq> None)"

text \<open>The handles of the tasks that still fire for a client.\<close>

definition live_timers :: "gui_state \<Rightarrow> jsnum \<Rightarrow> nat list" where
  "live_timers s clientId =
     filter (\<lambda>h. owner (tasks s ! h) = clientId \<and> running (tasks s ! h)) [0..<length (tasks s)]"

text \<open>
  The invariant behind the registry: a task that fires is the one entered under its
  owner, and an entry points to a firing task of that client.
\<close>

definition registry_ok :: "gui_state \<Rightarrow> bool" where
  "registry_ok s \<longleftrightarrow>
     (\<forall>h. h < length (tasks s) \<and> running (tasks s ! h) \<longrightarrow>
          activeJobs s (owner (tasks s ! h)) = Some h) \<and>
     (\<forall>c h. activeJobs s c = Some h \<longrightarrow>
          h < length (tasks s) \<and> owner (tasks s ! h) = c \<and> running (tasks s ! h))"

section \<open>Restoring the schedules at boot (gui/server.js)\<close>

text \<open>
  A row of the \<^verbatim>\<open>clients\<close> table (db/init.sql). The columns keep their names behind
  \<^verbatim>\<open>c_\<close>; \<^verbatim>\<open>schedule\<close> and \<^verbatim>\<open>schedule_enabled\<close> may be NULL. \<^verbatim>\<open>created_at\<close> is
  read by no code modelled here and is left out.
\<close>

record client_row =
  c_id :: int
  c_name :: string
  c_url :: string
  c_platform :: string
  c_schedule :: "string option"
  c_schedule_enabled :: "bool option"

text \<open>
  \<^verbatim>\<open>SELECT id, schedule FROM clients WHERE schedule IS NOT NULL AND schedule_enabled = TRUE\<close>
\<close>

definition select_enabled_schedules :: "client_row list \<Rightarrow> (int \<times> string) list" where
  "select_enabled_schedules clients =
     concat (map (\<lambda>r. case c_schedule r of
                         None \<Rightarrow> []
                       | Some e \<Rightarrow> if c_schedule_enabled r = Some True then [(c_id r, e)] else [])
                 clients)"

text \<open>
  \<^verbatim>\<open>
  for (const row of result.rows) {
    try {
      startJob(row.id, row.schedule);
    } catch (err) {
      console.warn(`Bad schedule for client ${row.id}: ${err.message}`);
    }
  }\<close>
\<close>

fun restore_rows :: "(string \<Rightarrow> bool) \<Rightarrow> (int \<times> string) list \<Rightarrow> gui_state \<Rightarrow> gui_state" where
  "restore_rows validate [] s = s"
| "restore_rows validate ((i, e) # rows) s =
     (case startJob validate (Num i) e s of
        (Inl err, s') \<Rightarrow>
          restore_rows validate rows (s'\<lparr>console := console s' @ [WarnBadSchedule i err]\<rparr>)
      | (Inr u, s') \<Rightarrow> restore_rows validate rows s')"

text \<open>
  The body of the outer \<^verbatim>\<open>try\<close> of \<^verbatim>\<open>initSchedules\<close>. The store is the other
  party: \<open>fault\<close> is the message of the error the query is rejected with, if it is;
  otherwise the query answers from the rows of the table.
  \<^verbatim>\<open>
  const result = await pool.query(`SELECT id, schedule FROM clients WHERE ...`);
  for (const row of result.rows) { ... }
  console.log(`Restored ${result.rows.length} scheduled job(s)`);\<close>
\<close>

definition restore_body ::
  "(string \<Rightarrow> bool) \<Rightarrow> string option \<Rightarrow> client_row list \<Rightarrow> gui_state \<Rightarrow> (js_error + unit) \<times> gui_state" where
  "restore_body validate fault clients s =
     (case fault of
        Some msg \<Rightarrow> (Inl (DbError msg), s)
      | None \<Rightarrow>
          (let rows = select_enabled_schedules clients;
               s1 = restore_rows validate rows s
           in (Inr (), s1\<lparr>console := console s1 @ [LogRestored (length rows)]\<rparr>)))"

text \<open>
  \<^verbatim>\<open>
  async function initSchedules() {
    try { ... } catch (err) {
      console.error("Failed to restore schedules:", err.message);
    }
  }\<close>
\<close>

definition initSchedules ::
  "(string \<Rightarrow> bool) \<Rightarrow> string option \<Rightarrow> client_row list \<Rightarrow> gui_state \<Rightarrow> (js_error + unit) \<times> gui_state" where
  "initSchedules validate fault clients s =
     (case restore_body validate fault clients s of
        (Inl err, s') \<Rightarrow> (Inr (), s'\<lparr>console := console s' @ [ErrRestoreFailed err]\<rparr>)
      | (Inr u, s') \<Rightarrow> (Inr u, s'))"

text \<open>
  Every change of the registry in gui/server.js is a call of \<^verbatim>\<open>startJob\<close> or of
  \<^verbatim>\<open>stopJob\<close>, from a handler or from \<^verbatim>\<open>initSchedules\<close>; JavaScript runs each
  call to its end before the next one starts. The states the registry can be in are
  those a sequence of such calls reaches from the empty registry of a fresh process.
\<close>

datatype registry_op =
    Start jsnum string
  | Stop jsnum
  | Recover "string option" "client_row list"

fun run_ops :: "(string \<Rightarrow> bool) \<Rightarrow> registry_op list \<Rightarrow> gui_state \<Rightarrow> gui_state" where
  "run_ops validate [] s = s"
| "run_ops validate (Start c e # ops) s = run_ops validate ops (snd (startJob validate c e s))"
| "run_ops validate (Stop c # ops) s = run_ops validate ops (stopJob c s)"
| "run_ops validate (Recover fault clients # ops) s =
     run_ops validate ops (snd (initSchedules validate fault clients s))"

text \<open>A client has a job that fires under an expression.\<close>

definition job_running :: "gui_state \<Rightarrow> jsnum \<Rightarrow> string \<Rightarrow> bool" where
  "job_running s clientId expr =
     (case activeJobs s clientId of
        None \<Rightarrow> False
      | Some h \<Rightarrow>
          h < length (tasks s) \<and>
          tasks s ! h = \<lparr>expression = expr, owner = clientId, running = True\<rparr>)"

text \<open>The number of rows whose job \<^verbatim>\<open>startJob\<close> installed.\<close>

definition restored_count :: "(string \<Rightarrow> bool) \<Rightarrow> client_row list \<Rightarrow> nat" where
  "restored_count validate clients =
     length (filter (\<lambda>row. validate (snd row)) (select_enabled_schedules clients))"

section \<open>The form factor of an audit (gui/server.js)\<close>

text \<open>
  \<^verbatim>\<open>
  function resolveFormFactor(clientPlatform, requestedFormFactor = "mobile") {
    if (clientPlatform === "mobile") return "mobile";
    if (clientPlatform === "desktop") return "desktop";
    return requestedFormFactor; // 'both' -> honour what the user picked
  }\<close>
  An argument left out (\<^verbatim>\<open>undefined\<close>) is \<open>None\<close> and takes the default.
\<close>

definition resolveFormFactor :: "string \<Rightarrow> string option \<Rightarrow> string" where
  "resolveFormFactor clientPlatform requestedFormFactor =
     (if clientPlatform = ''mobile'' then ''mobile''
      else if clientPlatform = ''desktop'' then ''desktop''
      else (case requestedFormFactor of None \<Rightarrow> ''mobile'' | Some f \<Rightarrow> f))"

section \<open>The client handlers of the GUI service (gui/server.js)\<close>

text \<open>
  A field of a JSON body or of a query string: absent (\<open>None\<close>) or a string. It is
  truthy when it is a string that is not empty; in a template literal an absent field
  prints as \<^verbatim>\<open>undefined\<close>.
\<close>

definition truthy :: "string option \<Rightarrow> bool" where
  "truthy v = (case v of None \<Rightarrow> False | Some s \<Rightarrow> s \<noteq> [])"

definition js_str :: "string option \<Rightarrow> string" where
  "js_str v = (case v of None \<Rightarrow> ''undefined'' | Some s \<Rightarrow> s)"

record client_request =
  req_name :: "string option"
  req_url :: "string option"
  req_platform :: "string option"

text \<open>
  What a \<^verbatim>\<open>catch\<close> of a handler sees of the error: \<^verbatim>\<open>err.code\<close>,
  \<^verbatim>\<open>err.constraint\<close> and \<^verbatim>\<open>err.message\<close>.
\<close>

record thrown =
  err_code :: "string option"
  err_constraint :: "string option"
  err_message :: string

text \<open>The \<^verbatim>\<open>TypeError\<close> of \<^verbatim>\<open>new URL(url)\<close> on a string that is no URL.\<close>

definition invalid_url_error :: thrown where
  "invalid_url_error =
     \<lparr>err_code = Some ''ERR_INVALID_URL'', err_constraint = None, err_message = ''Invalid URL''\<rparr>"

datatype gui_body =
    ErrorText string           \<comment> \<open>\<^verbatim>\<open>{ error: <text> }\<close>\<close>
  | ErrorDuplicateName string  \<comment> \<open>\<^verbatim>\<open>A client named "<name>" already exists. ...\<close>\<close>
  | ErrorDuplicatePair string  \<comment> \<open>\<^verbatim>\<open>A <platform> client for this URL already exists. ...\<close>\<close>
  | CreatedClient client_row   \<comment> \<open>\<^verbatim>\<open>result.rows[0]\<close>\<close>
  | SuccessTrue                \<comment> \<open>\<^verbatim>\<open>{ success: true }\<close>\<close>

record gui_response =
  status :: nat
  body :: gui_body

text \<open>
  \<^verbatim>\<open>
  app.post("/api/clients", async (req, res) => {
    const { name, url, platform = "both" } = req.body;
    if (!name || !url)
      return res.status(400).json({ error: "name and url required" });
    if (!["mobile", "desktop", "both"].includes(platform)) {
      return res.status(400).json({ error: "platform must be mobile, desktop, or both" });
    }
    try {
      new URL(url); // validate
      const result = await pool.query("INSERT INTO clients ...", [name, url, platform]);
      res.status(201).json(result.rows[0]);
    } catch (err) {
      if (err.code === "23505") {
        if (err.constraint === "clients_name_unique") return res.status(409).json(...);
        if (err.constraint === "clients_url_platform_unique") return res.status(409).json(...);
        return res.status(409).json({ error: "Duplicate client" });
      }
      res.status(500).json({ error: err.message });
    }
  });\<close>
  The URL parser (\<open>valid_url\<close>: \<^verbatim>\<open>new URL\<close> does not throw) is a parameter, and so is the
  answer of the store to the INSERT: the error it rejects with, or the row it returns.
\<close>

definition post_clients ::
  "(string \<Rightarrow> bool) \<Rightarrow> client_request \<Rightarrow> thrown + client_row \<Rightarrow> gui_response" where
  "post_clients valid_url req inserted =
     (let platform = (case req_platform req of None \<Rightarrow> ''both'' | Some p \<Rightarrow> p) in
      if \<not> truthy (req_name req) then \<lparr>status = 400, body = ErrorText ''name and url required''\<rparr>
      else if \<not> truthy (req_url req) then \<lparr>status = 400, body = ErrorText ''name and url required''\<rparr>
      else if platform \<notin> set [''mobile'', ''desktop'', ''both'']
        then \<lparr>status = 400, body = ErrorText ''platform must be mobile, desktop, or both''\<rparr>
      else
        (case (if valid_url (js_str (req_url req)) then inserted else Inl invalid_url_error) of
           Inr row \<Rightarrow> \<lparr>status = 201, body = CreatedClient row\<rparr>
         | Inl err \<Rightarrow>
             if err_code err = Some ''23505'' then
               (if err_constraint err = Some ''clients_name_unique''
                  then \<lparr>status = 409, body = ErrorDuplicateName (js_str (req_name req))\<rparr>
                else if err_constraint err = Some ''clients_url_platform_unique''
                  then \<lparr>status = 409, body = ErrorDuplicatePair platform\<rparr>
                else \<lparr>status = 409, body = ErrorText ''Duplicate client''\<rparr>)
             else \<lparr>status = 500, body = ErrorText (err_message err)\<rparr>))"

text \<open>
  \<^verbatim>\<open>
  app.delete("/api/clients/:id", async (req, res) => {
    try {
      stopJob(parseInt(req.params.id));
      await pool.query("DELETE FROM clients WHERE id = $1", [req.params.id]);
      res.json({ success: true });
    } catch (err) {
      res.status(500).json({ error: err.message });
    }
  });\<close>
  \<^verbatim>\<open>parseInt\<close> is a parameter. The store answers the DELETE with the error it rejects
  with, or with the number of rows it deleted (none when no client has the id).
\<close>

definition delete_client ::
  "(string \<Rightarrow> jsnum) \<Rightarrow> string \<Rightarrow> thrown + nat \<Rightarrow> gui_state \<Rightarrow> gui_response \<times> gui_state" where
  "delete_client parseInt id_param deleted s =
     (let s1 = stopJob (parseInt id_param) s in
      case deleted of
        Inl err \<Rightarrow> (\<lparr>status = 500, body = ErrorText (err_message err)\<rparr>, s1)
      | Inr rowCount \<Rightarrow> (\<lparr>status = 200, body = SuccessTrue\<rparr>, s1))"

section \<open>The audit engine (lighthouse/server.js)\<close>

text \<open>
  What the handler reads of the Lighthouse result \<^verbatim>\<open>lhr\<close>: the five categories it asks
  for, each absent or with a score that is \<^verbatim>\<open>null\<close> or a number, and the text
  \<^verbatim>\<open>JSON.stringify(lhr)\<close>. A score is a fraction between 0 and 1 in Lighthouse. A JavaScript
  number is the real number it stands for.
\<close>

record category =
  score :: "real option"

record lhr =
  cat_performance :: "category option"
  cat_accessibility :: "category option"
  cat_best_practices :: "category option"
  cat_seo :: "category option"
  cat_pwa :: "category option"
  report :: string

text \<open>
  \<^verbatim>\<open>Math.round\<close>: the nearest integer, a half rounded up. ECMAScript defines it on the
  value of the number, with no rounding error of its own.
\<close>

definition js_round :: "real \<Rightarrow> int" where
  "js_round x = \<lfloor>x + 1 / 2\<rfloor>"

text \<open>\<^verbatim>\<open>categories.performance?.score || 0\<close>\<close>

definition category_score :: "category option \<Rightarrow> real" where
  "category_score c =
     (case c of
        None \<Rightarrow> 0
      | Some cat \<Rightarrow> (case score cat of None \<Rightarrow> 0 | Some v \<Rightarrow> if v = 0 then 0 else v))"

record scores =
  performance :: int
  accessibility :: int
  best_practices :: int
  seo :: int
  pwa :: int

text \<open>
  \<^verbatim>\<open>
  const scores = {
    performance: Math.round((categories.performance?.score || 0) * 100),
    accessibility: Math.round((categories.accessibility?.score || 0) * 100),
    best_practices: Math.round((categories["best-practices"]?.score || 0) * 100),
    seo: Math.round((categories.seo?.score || 0) * 100),
    pwa: Math.round((categories.pwa?.score || 0) * 100),
  };\<close>
  The operator \<^verbatim>\<open>*\<close> is the product of IEEE doubles: the exact product rounded to
  the nearest double. It belongs to the language and is the parameter \<open>mul\<close>.
\<close>

definition compute_scores :: "(real \<Rightarrow> real \<Rightarrow> real) \<Rightarrow> lhr \<Rightarrow> scores" where
  "compute_scores mul l =
     \<lparr>performance = js_round (mul (category_score (cat_performance l)) 100),
      accessibility = js_round (mul (category_score (cat_accessibility l)) 100),
      best_practices = js_round (mul (category_score (cat_best_practices l)) 100),
      seo = js_round (mul (category_score (cat_seo l)) 100),
      pwa = js_round (mul (category_score (cat_pwa l)) 100)\<rparr>"

text \<open>
  A row of the \<^verbatim>\<open>audits\<close> table (db/init.sql), the columns behind \<^verbatim>\<open>a_\<close>. The
  sub-metric columns and \<^verbatim>\<open>audited_at\<close> are written by no statement that a claim
  depends on and are left out. \<^verbatim>\<open>client_id\<close> holds the text of the query parameter.
  The table comes with the sequence behind its \<^verbatim>\<open>SERIAL\<close> key.
\<close>

record audit_row =
  a_id :: nat
  a_client_id :: string
  a_form_factor :: string
  a_performance :: "int option"
  a_accessibility :: "int option"
  a_best_practices :: "int option"
  a_seo :: "int option"
  a_pwa :: "int option"
  a_report_json :: "string option"
  a_status :: string
  a_error_message :: "string option"

record audit_store =
  audits :: "audit_row list"
  audits_seq :: nat

text \<open>
  \<^verbatim>\<open>INSERT INTO audits (client_id, form_factor, status) VALUES ($1, $2, 'running') RETURNING id\<close>
\<close>

definition insert_running :: "string \<Rightarrow> string \<Rightarrow> audit_store \<Rightarrow> nat \<times> audit_store" where
  "insert_running client_id formFactor db =
     (let i = Suc (audits_seq db) in
      (i, \<lparr>audits = audits db @
             [\<lparr>a_id = i, a_client_id = client_id, a_form_factor = formFactor,
               a_performance = None, a_accessibility = None, a_best_practices = None,
               a_seo = None, a_pwa = None, a_report_json = None,
               a_status = ''running'', a_error_message = None\<rparr>],
           audits_seq = i\<rparr>))"

text \<open>
  \<^verbatim>\<open>UPDATE audits SET performance=$1, accessibility=$2, best_practices=$3, seo=$4, pwa=$5,
     report_json=$6, status='completed', audited_at=NOW() WHERE id=$7\<close>
\<close>

definition update_completed :: "scores \<Rightarrow> string \<Rightarrow> nat \<Rightarrow> audit_store \<Rightarrow> audit_store" where
  "update_completed sc doc i db =
     db\<lparr>audits :=
          map (\<lambda>r. if a_id r = i
                    then r\<lparr>a_performance := Some (performance sc),
                           a_accessibility := Some (accessibility sc),
                           a_best_practices := Some (best_practices sc),
                           a_seo := Some (seo sc), a_pwa := Some (pwa sc),
                           a_report_json := Some doc, a_status := ''completed''\<rparr>
                    else r)
              (audits db)\<rparr>"

text \<open>
  \<^verbatim>\<open>INSERT INTO audits (client_id, form_factor, performance, accessibility, best_practices,
     seo, pwa, report_json, status) VALUES ($1,$2,$3,$4,$5,$6,$7,$8,'completed') RETURNING id\<close>
\<close>

definition insert_completed ::
  "string \<Rightarrow> string \<Rightarrow> scores \<Rightarrow> string \<Rightarrow> audit_store \<Rightarrow> nat \<times> audit_store" where
  "insert_completed client_id formFactor sc doc db =
     (let i = Suc (audits_seq db) in
      (i, \<lparr>audits = audits db @
             [\<lparr>a_id = i, a_client_id = client_id, a_form_factor = formFactor,
               a_performance = Some (performance sc),
               a_accessibility = Some (accessibility sc),
               a_best_practices = Some (best_practices sc),
               a_seo = Some (seo sc), a_pwa = Some (pwa sc), a_report_json = Some doc,
               a_status = ''completed'', a_error_message = None\<rparr>],
           audits_seq = i\<rparr>))"

text \<open>\<^verbatim>\<open>UPDATE audits SET status='failed', error_message=$1 WHERE id=$2\<close>\<close>

definition update_failed :: "string \<Rightarrow> nat \<Rightarrow> audit_store \<Rightarrow> audit_store" where
  "update_failed msg i db =
     db\<lparr>audits :=
          map (\<lambda>r. if a_id r = i then r\<lparr>a_status := ''failed'', a_error_message := Some msg\<rparr> else r)
              (audits db)\<rparr>"

text \<open>
  The store and the browser are the other parties of a request. For each of the four
  statements the handler can send, \<open>db_faults\<close> holds the error the store rejects it
  with, if it does. A rejected statement changes no row. A rejected INSERT may have
  taken its id from the sequence all the same: PostgreSQL computes the default of the
  \<^verbatim>\<open>SERIAL\<close> column before it checks a constraint, and does not give the value back;
  an INSERT that never reached the server took none. The engine
  (lines 132 to 168: launching Chrome, loading and running Lighthouse, reading
  \<^verbatim>\<open>runnerResult.lhr\<close>) throws an error with a message or yields the result.
\<close>

record insert_rejection =
  reject_message :: string
  id_consumed :: bool

record db_faults =
  insert_running_fault :: "insert_rejection option"
  update_completed_fault :: "string option"
  insert_completed_fault :: "insert_rejection option"
  update_failed_fault :: "string option"

definition reject_insert :: "insert_rejection \<Rightarrow> audit_store \<Rightarrow> audit_store" where
  "reject_insert rej db =
     (if id_consumed rej then db\<lparr>audits_seq := Suc (audits_seq db)\<rparr> else db)"

record audit_request =
  q_url :: "string option"
  q_client_id :: "string option"
  q_form_factor :: "string option"

datatype audit_body =
    UrlParamRequired   \<comment> \<open>\<^verbatim>\<open>{ error: "`url` query param is required" }\<close>\<close>
  | InvalidUrlFormat   \<comment> \<open>\<^verbatim>\<open>{ error: "Invalid URL format" }\<close>\<close>
  | AuditSuccess string string scores "nat option"
      \<comment> \<open>\<^verbatim>\<open>{ success: true, url, form_factor, scores, audit_id }\<close>\<close>
  | AuditFailure string  \<comment> \<open>\<^verbatim>\<open>{ success: false, error: err.message }\<close>\<close>

record audit_response =
  http_status :: nat
  http_body :: audit_body

text \<open>
  \<^verbatim>\<open>
  let auditId = null;
  if (client_id) {
    try {
      const result = await pool.query(`INSERT INTO audits ... 'running' ...`, [client_id, formFactor]);
      auditId = result.rows[0].id;
    } catch (err) {
      console.error("Failed to create audit record:", err.message);
    }
  }\<close>
\<close>

definition create_record ::
  "db_faults \<Rightarrow> audit_request \<Rightarrow> string \<Rightarrow> audit_store \<Rightarrow> nat option \<times> audit_store" where
  "create_record faults req formFactor db =
     (if truthy (q_client_id req) then
        (case insert_running_fault faults of
           None \<Rightarrow>
             (case insert_running (js_str (q_client_id req)) formFactor db of
                (i, db') \<Rightarrow> (Some i, db'))
         | Some rej \<Rightarrow> (None, reject_insert rej db))
      else (None, db))"

text \<open>
  The \<^verbatim>\<open>else if (client_id)\<close> branch of the save, taken when \<^verbatim>\<open>auditId\<close> is falsy.
\<close>

definition save_without_record ::
  "(real \<Rightarrow> real \<Rightarrow> real) \<Rightarrow> db_faults \<Rightarrow> audit_request \<Rightarrow> string \<Rightarrow> lhr \<Rightarrow> nat option \<Rightarrow> audit_store \<Rightarrow>
     (string + audit_response) \<times> audit_store" where
  "save_without_record mul faults req formFactor l auditId db =
     (if truthy (q_client_id req) then
        (case insert_completed_fault faults of
           Some rej \<Rightarrow> (Inl (reject_message rej), reject_insert rej db)
         | None \<Rightarrow>
             (case insert_completed (js_str (q_client_id req)) formFactor (compute_scores mul l)
                     (report l) db of
                (i, db') \<Rightarrow>
                  (Inr \<lparr>http_status = 200,
                        http_body = AuditSuccess (js_str (q_url req)) formFactor
                                      (compute_scores mul l) (Some i)\<rparr>, db')))
      else
        (Inr \<lparr>http_status = 200,
              http_body = AuditSuccess (js_str (q_url req)) formFactor (compute_scores mul l) auditId\<rparr>,
         db))"

text \<open>
  The body of the \<^verbatim>\<open>try\<close> (lines 129 to 223): the message of the error thrown, or the
  response sent. \<^verbatim>\<open>if (auditId)\<close> holds for an id that is neither \<^verbatim>\<open>null\<close> nor 0.
\<close>

definition try_audit ::
  "(real \<Rightarrow> real \<Rightarrow> real) \<Rightarrow> db_faults \<Rightarrow> string + lhr \<Rightarrow> audit_request \<Rightarrow> string \<Rightarrow> nat option \<Rightarrow> audit_store \<Rightarrow>
     (string + audit_response) \<times> audit_store" where
  "try_audit mul faults engine req formFactor auditId db =
     (case engine of
        Inl msg \<Rightarrow> (Inl msg, db)
      | Inr l \<Rightarrow>
          (case auditId of
             None \<Rightarrow> save_without_record mul faults req formFactor l auditId db
           | Some i \<Rightarrow>
               if i = 0 then save_without_record mul faults req formFactor l auditId db
               else
                 (case update_completed_fault faults of
                    Some msg \<Rightarrow> (Inl msg, db)
                  | None \<Rightarrow>
                      (Inr \<lparr>http_status = 200,
                            http_body = AuditSuccess (js_str (q_url req)) formFactor
                                          (compute_scores mul l) auditId\<rparr>,
                       update_completed (compute_scores mul l) (report l) i db))))"

text \<open>
  The \<^verbatim>\<open>try\<close> with its \<^verbatim>\<open>catch\<close>:
  \<^verbatim>\<open>
  } catch (err) {
    if (auditId) {
      await pool.query(`UPDATE audits SET status='failed', error_message=$1 WHERE id=$2`,
                       [err.message, auditId]).catch(() => {});
    }
    res.status(500).json({ success: false, error: err.message });
  }\<close>
  The \<^verbatim>\<open>finally\<close> block kills the browser and touches neither the store nor the
  response.
\<close>

definition finish_audit ::
  "(real \<Rightarrow> real \<Rightarrow> real) \<Rightarrow> db_faults \<Rightarrow> string + lhr \<Rightarrow> audit_request \<Rightarrow> string \<Rightarrow> nat option \<Rightarrow> audit_store \<Rightarrow>
     audit_response \<times> audit_store" where
  "finish_audit mul faults engine req formFactor auditId db =
     (case try_audit mul faults engine req formFactor auditId db of
        (Inr response, db') \<Rightarrow> (response, db')
      | (Inl msg, db') \<Rightarrow>
          (\<lparr>http_status = 500, http_body = AuditFailure msg\<rparr>,
           (case auditId of
              None \<Rightarrow> db'
            | Some i \<Rightarrow>
                if i = 0 then db'
                else (case update_failed_fault faults of
                        Some m \<Rightarrow> db'
                      | None \<Rightarrow> update_failed msg i db'))))"

text \<open>
  \<^verbatim>\<open>
  app.get("/audit", async (req, res) => {
    const { url, client_id } = req.query;
    const formFactor = req.query.form_factor === "desktop" ? "desktop" : "mobile";
    if (!url) return res.status(400).json({ error: "`url` query param is required" });
    try { new URL(url); } catch { return res.status(400).json({ error: "Invalid URL format" }); }
    ...\<close>
\<close>

definition form_factor_of :: "audit_request \<Rightarrow> string" where
  "form_factor_of req = (if q_form_factor req = Some ''desktop'' then ''desktop'' else ''mobile'')"

definition audit_handler ::
  "(string \<Rightarrow> bool) \<Rightarrow> (real \<Rightarrow> real \<Rightarrow> real) \<Rightarrow> db_faults \<Rightarrow> string + lhr \<Rightarrow> audit_request \<Rightarrow> audit_store \<Rightarrow>
     audit_response \<times> audit_store" where
  "audit_handler valid_url mul faults engine req db =
     (if \<not> truthy (q_url req) then (\<lparr>http_status = 400, http_body = UrlParamRequired\<rparr>, db)
      else if \<not> valid_url (js_str (q_url req))
        then (\<lparr>http_status = 400, http_body = InvalidUrlFormat\<rparr>, db)
      else
        (case create_record faults req (form_factor_of req) db of
           (auditId, db1) \<Rightarrow> finish_audit mul faults engine req (form_factor_of req) auditId db1))"

text \<open>The row of an id, and what the statuses of a row come with.\<close>

definition find_row :: "audit_store \<Rightarrow> nat \<Rightarrow> audit_row option" where
  "find_row db i = find (\<lambda>r. a_id r = i) (audits db)"





text \<open>The sequence is ahead of every id in the table, as a \<^verbatim>\<open>SERIAL\<close> key keeps it.\<close>

definition store_ok :: "audit_store \<Rightarrow> bool" where
  "store_ok db = list_all (\<lambda>r. a_id r \<le> audits_seq db) (audits db)"

text \<open>The scores of a result whose categories carry fractions between 0 and 1.\<close>

definition unit_score :: "category option \<Rightarrow> bool" where
  "unit_score c =
     (case c of
        None \<Rightarrow> True
      | Some cat \<Rightarrow> (case score cat of None \<Rightarrow> True | Some v \<Rightarrow> 0 \<le> v \<and> v \<le> 1))"

definition lhr_ok :: "lhr \<Rightarrow> bool" where
  "lhr_ok l \<longleftrightarrow>
     unit_score (cat_performance l) \<and> unit_score (cat_accessibility l) \<and>
     unit_score (cat_best_practices l) \<and> unit_score (cat_seo l) \<and> unit_score (cat_pwa l)"

definition percent :: "int \<Rightarrow> bool" where
  "percent n \<longleftrightarrow> 0 \<le> n \<and> n \<le> 100"

definition percent_scores :: "scores \<Rightarrow> bool" where
  "percent_scores sc \<longleftrightarrow>
     percent (performance sc) \<and> percent (accessibility sc) \<and> percent (best_practices sc) \<and>
     percent (seo sc) \<and> percent (pwa sc)"

text \<open>
  What the two properties of the double product are that the scores rest on: the
  product of 0 is 0, and the product of a fraction between 0 and 1 with 100 lies
  between 0 and 100 (rounding to the nearest double is monotone, and 0 and 100 are
  doubles).
\<close>

definition double_product :: "(real \<Rightarrow> real \<Rightarrow> real) \<Rightarrow> bool" where
  "double_product mul \<longleftrightarrow>
     mul 0 100 = 0 \<and> (\<forall>v. 0 \<le> v \<and> v \<le> 1 \<longrightarrow> 0 \<le> mul v 100 \<and> mul v 100 \<le> 100)"

text \<open>A category has no score: it is absent, or its score is \<^verbatim>\<open>null\<close>.\<close>

definition no_score :: "category option \<Rightarrow> bool" where
  "no_score c = (case c of None \<Rightarrow> True | Some cat \<Rightarrow> score cat = None)"

text \<open>
  An integer is what a category is recorded as: 0 for a category without a score, and
  otherwise the integer nearest to the product of the score with 100, the upper one of
  two that are equally near.
\<close>

definition score_recorded :: "(real \<Rightarrow> real \<Rightarrow> real) \<Rightarrow> category option \<Rightarrow> int \<Rightarrow> bool" where
  "score_recorded mul c n =
     (case c of
        None \<Rightarrow> n = 0
      | Some cat \<Rightarrow>
          (case score cat of
             None \<Rightarrow> n = 0
           | Some v \<Rightarrow> mul v 100 - 1 / 2 < real_of_int n \<and> real_of_int n \<le> mul v 100 + 1 / 2))"

text \<open>A column holds what a category is recorded as, an integer from 0 to 100.\<close>

definition column_records ::
  "(real \<Rightarrow> real \<Rightarrow> real) \<Rightarrow> category option \<Rightarrow> int option \<Rightarrow> bool" where
  "column_records mul c col =
     (case col of None \<Rightarrow> False | Some n \<Rightarrow> score_recorded mul c n \<and> percent n)"

text \<open>The five score columns of a row hold the scores of a result.\<close>

definition row_has_scores :: "audit_row \<Rightarrow> scores \<Rightarrow> bool" where
  "row_has_scores r sc \<longleftrightarrow>
     a_performance r = Some (performance sc) \<and> a_accessibility r = Some (accessibility sc) \<and>
     a_best_practices r = Some (best_practices sc) \<and> a_seo r = Some (seo sc) \<and>
     a_pwa r = Some (pwa sc)"


text \<open>
  Sample data for evaluating the definitions: a stand-in for \<^verbatim>\<open>cron.validate\<close> that
  accepts two five-field expressions, and the registry after client 1 was scheduled.
\<close>

definition sample_validate :: "string \<Rightarrow> bool" where
  "sample_validate e = (e = ''*/5 * * * *'' \<or> e = ''0 3 * * *'')"

definition sample_registry :: gui_state where
  "sample_registry = snd (startJob sample_validate (Num 1) ''*/5 * * * *'' initial_state)"


text \<open>
  The stored clients of the example in the specification: a valid schedule, a schedule
  that is no cron expression, and a client without a schedule.
\<close>

definition sample_clients :: "client_row list" where
  "sample_clients =
     [\<lparr>c_id = 1, c_name = ''one'', c_url = ''https://one.example'', c_platform = ''both'',
       c_schedule = Some ''*/5 * * * *'', c_schedule_enabled = Some True\<rparr>,
      \<lparr>c_id = 2, c_name = ''two'', c_url = ''https://two.example'', c_platform = ''mobile'',
       c_schedule = Some ''not-a-cron'', c_schedule_enabled = Some True\<rparr>,
      \<lparr>c_id = 3, c_name = ''three'', c_url = ''https://three.example'', c_platform = ''desktop'',
       c_schedule = None, c_schedule_enabled = Some False\<rparr>]"

text \<open>A stand-in for the URL parser that accepts one URL.\<close>

definition sample_valid_url :: "string \<Rightarrow> bool" where
  "sample_valid_url u = (u = ''https://a.com'')"

text \<open>
  An empty \<^verbatim>\<open>audits\<close> table, a store that rejects nothing, and a Lighthouse result
  with a null score and without the pwa category. Its scores 3/4, 1 and 1/2 are
  doubles, and so are their products with 100: on them the double product is the exact
  product, which stands in for it.
\<close>

definition sample_mul :: "real \<Rightarrow> real \<Rightarrow> real" where
  "sample_mul x y = x * y"



definition empty_store :: audit_store where
  "empty_store = \<lparr>audits = [], audits_seq = 0\<rparr>"

definition no_faults :: db_faults where
  "no_faults = \<lparr>insert_running_fault = None, update_completed_fault = None,
                 insert_completed_fault = None, update_failed_fault = None\<rparr>"

definition sample_lhr :: lhr where
  "sample_lhr =
     \<lparr>cat_performance = Some \<lparr>score = Some (3 / 4)\<rparr>,
      cat_accessibility = Some \<lparr>score = Some 1\<rparr>,
      cat_best_practices = Some \<lparr>score = None\<rparr>,
      cat_seo = Some \<lparr>score = Some (1 / 2)\<rparr>,
      cat_pwa = None,
      report = ''{}''\<rparr>"

definition sample_request :: audit_request where
  "sample_request =
     \<lparr>q_url = Some ''https://a.com'', q_client_id = Some ''7'', q_form_factor = Some ''desktop''\<rparr>"

section \<open>The registry invariant\<close>

lemma registry_ok_initial: "registry_ok initial_state"
  by (simp add: registry_ok_def initial_state_def)

lemma registry_ok_stopJob:
  assumes "registry_ok s"
  shows "registry_ok (stopJob c s)"
proof (cases "activeJobs s c")
  case None
  then show ?thesis using assms by (simp add: stopJob_def)
next
  case (Some h)
  from assms Some have h: "h < length (tasks s)" "owner (tasks s ! h) = c"
    by (auto simp: registry_ok_def)
  show ?thesis
    unfolding registry_ok_def
  proof (intro conjI allI impI)
    fix h'
    assume a: "h' < length (tasks (stopJob c s)) \<and> running (tasks (stopJob c s) ! h')"
    then have ne: "h' \<noteq> h" using Some h by (auto simp: stopJob_def stop_task_def)
    with a Some h have "h' < length (tasks s)" "running (tasks s ! h')"
      "tasks (stopJob c s) ! h' = tasks s ! h'"
      by (auto simp: stopJob_def stop_task_def)
    moreover from this assms have "activeJobs s (owner (tasks s ! h')) = Some h'"
      by (simp add: registry_ok_def)
    moreover from this Some ne have "owner (tasks s ! h') \<noteq> c" by auto
    ultimately show "activeJobs (stopJob c s) (owner (tasks (stopJob c s) ! h')) = Some h'"
      using Some by (simp add: stopJob_def)
  next
    fix k h'
    assume a: "activeJobs (stopJob c s) k = Some h'"
    then have k: "k \<noteq> c" "activeJobs s k = Some h'"
      using Some by (auto simp: stopJob_def split: if_splits)
    with assms have p: "h' < length (tasks s)" "owner (tasks s ! h') = k" "running (tasks s ! h')"
      by (auto simp: registry_ok_def)
    with k h have ne: "h' \<noteq> h" by auto
    show "h' < length (tasks (stopJob c s))"
      using p Some by (simp add: stopJob_def stop_task_def)
    show "owner (tasks (stopJob c s) ! h') = k"
      using p ne Some by (simp add: stopJob_def stop_task_def)
    show "running (tasks (stopJob c s) ! h')"
      using p ne Some by (simp add: stopJob_def stop_task_def)
  qed
qed

lemma stopJob_inactive: "activeJobs (stopJob c s) c = None"
  by (simp add: stopJob_def split: option.splits)

lemma stopJob_other: "k \<noteq> c \<Longrightarrow> activeJobs (stopJob c s) k = activeJobs s k"
  by (simp add: stopJob_def split: option.splits)

lemma stopJob_length: "length (tasks (stopJob c s)) = length (tasks s)"
  by (simp add: stopJob_def stop_task_def split: option.splits)


lemma startJob_valid:
  "validate e \<Longrightarrow> startJob validate c e s =
     (Inr (),
      (stopJob c s)\<lparr>tasks := tasks (stopJob c s) @ [\<lparr>expression = e, owner = c, running = True\<rparr>],
        activeJobs := (activeJobs (stopJob c s))(c \<mapsto> length (tasks s)),
        console := console (stopJob c s) @ [LogScheduled c e]\<rparr>)"
  by (simp add: startJob_def Let_def stopJob_length)

lemma startJob_invalid:
  "\<not> validate e \<Longrightarrow> startJob validate c e s = (Inl (InvalidCron e), stopJob c s)"
  by (simp add: startJob_def Let_def)

lemma registry_ok_startJob:
  assumes "registry_ok s"
  shows "registry_ok (snd (startJob validate c e s))"
proof (cases "validate e")
  case False
  then show ?thesis using registry_ok_stopJob [OF assms] by (simp add: startJob_invalid)
next
  case True
  let ?s1 = "stopJob c s"
  let ?s2 = "snd (startJob validate c e s)"
  have ok: "registry_ok ?s1" by (rule registry_ok_stopJob [OF assms])
  have none: "activeJobs ?s1 c = None" by (rule stopJob_inactive)
  have len: "length (tasks ?s1) = length (tasks s)" by (rule stopJob_length)
  have t2: "tasks ?s2 = tasks ?s1 @ [\<lparr>expression = e, owner = c, running = True\<rparr>]"
    and a2: "activeJobs ?s2 = (activeJobs ?s1)(c \<mapsto> length (tasks ?s1))"
    using True by (simp_all add: startJob_valid len)
  have part1: "activeJobs ?s2 (owner (tasks ?s2 ! h)) = Some h"
    if "h < length (tasks ?s2) \<and> running (tasks ?s2 ! h)" for h
  proof (cases "h < length (tasks ?s1)")
    case True
    with that have r: "running (tasks ?s1 ! h)" by (simp add: t2 nth_append)
    with True ok have a: "activeJobs ?s1 (owner (tasks ?s1 ! h)) = Some h"
      by (simp add: registry_ok_def)
    with none have "owner (tasks ?s1 ! h) \<noteq> c" by auto
    with a True show ?thesis by (simp add: t2 a2 nth_append)
  next
    case False
    with that have "h = length (tasks ?s1)" by (simp add: t2)
    then show ?thesis by (simp add: t2 a2)
  qed
  have part2: "h < length (tasks ?s2) \<and> owner (tasks ?s2 ! h) = k \<and> running (tasks ?s2 ! h)"
    if "activeJobs ?s2 k = Some h" for k h
  proof (cases "k = c")
    case True
    with that have "h = length (tasks ?s1)" by (simp add: a2)
    with True show ?thesis by (simp add: t2)
  next
    case False
    with that have "activeJobs ?s1 k = Some h" by (simp add: a2)
    with ok have "h < length (tasks ?s1)" "owner (tasks ?s1 ! h) = k" "running (tasks ?s1 ! h)"
      by (auto simp: registry_ok_def)
    then show ?thesis by (simp add: t2 nth_append)
  qed
  show ?thesis unfolding registry_ok_def using part1 part2 by blast
qed

lemma live_timers_registered:
  assumes "registry_ok s" "h \<in> set (live_timers s k)"
  shows "activeJobs s k = Some h"
  using assms by (auto simp: live_timers_def registry_ok_def)

lemma live_timers_at_most_one:
  assumes "registry_ok s"
  shows "length (live_timers s k) \<le> 1"
proof (cases "live_timers s k")
  case Nil
  then show ?thesis by simp
next
  case (Cons x xs)
  show ?thesis
  proof (cases xs)
    case Nil
    with Cons show ?thesis by simp
  next
    case (Cons y ys)
    with \<open>live_timers s k = x # xs\<close> have l: "live_timers s k = x # y # ys" by simp
    then have "activeJobs s k = Some x" "activeJobs s k = Some y"
      using live_timers_registered [OF assms, of _ k] by simp_all
    then have "x = y" by simp
    moreover have "distinct (live_timers s k)" by (simp add: live_timers_def)
    ultimately show ?thesis using l by simp
  qed
qed

lemma live_timers_of_entry:
  assumes "registry_ok s" "activeJobs s k = Some h"
  shows "live_timers s k = [h]"
proof -
  from assms have "h \<in> set (live_timers s k)"
    by (auto simp: live_timers_def registry_ok_def)
  moreover have "length (live_timers s k) \<le> 1" by (rule live_timers_at_most_one [OF assms(1)])
  ultimately show ?thesis by (cases "live_timers s k") auto
qed

lemma live_timers_none:
  assumes "registry_ok s" "activeJobs s k = None"
  shows "live_timers s k = []"
proof (cases "live_timers s k")
  case Nil
  then show ?thesis .
next
  case (Cons h hs)
  then have "h \<in> set (live_timers s k)" by simp
  from live_timers_registered [OF assms(1) this] assms(2) show ?thesis by simp
qed


section \<open>Recovery at boot\<close>

lemma startJob_other:
  "k \<noteq> c \<Longrightarrow> activeJobs (snd (startJob validate c e s)) k = activeJobs s k"
  by (cases "validate e") (simp_all add: startJob_valid startJob_invalid stopJob_other)

lemma startJob_console:
  "set (console s) \<subseteq> set (console (snd (startJob validate c e s)))"
  by (cases "validate e")
    (auto simp: startJob_valid startJob_invalid stopJob_def split: option.splits)

lemma stopJob_task_other:
  assumes "registry_ok s" "h < length (tasks s)" "owner (tasks s ! h) \<noteq> c"
  shows "tasks (stopJob c s) ! h = tasks s ! h"
proof (cases "activeJobs s c")
  case None
  then show ?thesis by (simp add: stopJob_def)
next
  case (Some hc)
  with assms(1) have "owner (tasks s ! hc) = c" by (simp add: registry_ok_def)
  with assms(3) have "hc \<noteq> h" by auto
  with Some show ?thesis by (simp add: stopJob_def stop_task_def)
qed

lemma job_running_startJob_other:
  assumes "registry_ok s" "k \<noteq> c" "job_running s k x"
  shows "job_running (snd (startJob validate c e s)) k x"
proof -
  from assms(3) obtain h where h: "activeJobs s k = Some h" "h < length (tasks s)"
    "tasks s ! h = \<lparr>expression = x, owner = k, running = True\<rparr>"
    by (auto simp: job_running_def split: option.splits)
  from h(3) assms(2) have "owner (tasks s ! h) \<noteq> c" by simp
  with assms(1) h(2) have same: "tasks (stopJob c s) ! h = tasks s ! h"
    by (rule stopJob_task_other)
  have a: "activeJobs (snd (startJob validate c e s)) k = Some h"
    using h(1) assms(2) by (simp add: startJob_other)
  show ?thesis
  proof (cases "validate e")
    case True
    then show ?thesis
      using a h same unfolding job_running_def
      by (simp add: startJob_valid nth_append stopJob_length)
  next
    case False
    then show ?thesis
      using a h same unfolding job_running_def
      by (simp add: startJob_invalid stopJob_length)
  qed
qed

lemma job_running_startJob_self:
  "validate e \<Longrightarrow> job_running (snd (startJob validate c e s)) c e"
  by (simp add: job_running_def startJob_valid nth_append stopJob_length)

lemma job_running_console [simp]:
  "job_running (s\<lparr>console := l\<rparr>) k x = job_running s k x"
  by (simp add: job_running_def split: option.splits)

lemma registry_ok_console [simp]:
  "registry_ok (s\<lparr>console := l\<rparr>) = registry_ok s"
  by (simp add: registry_ok_def)

lemma restore_rows_Cons:
  "restore_rows validate ((i, e) # rows) s =
     (if validate e then restore_rows validate rows (snd (startJob validate (Num i) e s))
      else restore_rows validate rows
             ((stopJob (Num i) s)\<lparr>console := console (stopJob (Num i) s) @
                                         [WarnBadSchedule i (InvalidCron e)]\<rparr>))"
  by (simp add: startJob_valid startJob_invalid)

declare restore_rows.simps(2) [simp del]

lemma stopJob_console: "console (stopJob c s) = console s"
  by (simp add: stopJob_def split: option.splits)

lemma restore_rows_ok:
  "registry_ok s \<Longrightarrow> registry_ok (restore_rows validate rows s)"
proof (induction rows arbitrary: s)
  case Nil
  then show ?case by simp
next
  case (Cons row rows)
  obtain i e where row: "row = (i, e)" by (cases row)
  show ?case
    unfolding row restore_rows_Cons
    using Cons.prems registry_ok_startJob [of s validate "Num i" e]
    by (auto intro!: Cons.IH simp: registry_ok_stopJob)
qed

lemma restore_rows_other:
  "k \<notin> (\<lambda>row. Num (fst row)) ` set rows \<Longrightarrow>
     activeJobs (restore_rows validate rows s) k = activeJobs s k"
proof (induction rows arbitrary: s)
  case Nil
  then show ?case by simp
next
  case (Cons row rows)
  obtain i e where row: "row = (i, e)" by (cases row)
  from Cons.prems have k: "k \<noteq> Num i" "k \<notin> (\<lambda>row. Num (fst row)) ` set rows"
    by (auto simp: row)
  show ?case
    unfolding row restore_rows_Cons
    using k by (simp add: Cons.IH startJob_other stopJob_other)
qed

lemma restore_rows_console:
  "set (console s) \<subseteq> set (console (restore_rows validate rows s))"
proof (induction rows arbitrary: s)
  case Nil
  then show ?case by simp
next
  case (Cons row rows)
  obtain i e where row: "row = (i, e)" by (cases row)
  show ?case
  proof (cases "validate e")
    case True
    have "set (console s) \<subseteq> set (console (snd (startJob validate (Num i) e s)))"
      by (rule startJob_console)
    also have "\<dots> \<subseteq> set (console (restore_rows validate rows (snd (startJob validate (Num i) e s))))"
      by (rule Cons.IH)
    finally show ?thesis using True by (simp add: row restore_rows_Cons)
  next
    case False
    let ?s1 = "(stopJob (Num i) s)\<lparr>console := console (stopJob (Num i) s) @
                                         [WarnBadSchedule i (InvalidCron e)]\<rparr>"
    have "set (console s) \<subseteq> set (console ?s1)" by (auto simp: stopJob_console)
    also have "\<dots> \<subseteq> set (console (restore_rows validate rows ?s1))" by (rule Cons.IH)
    finally show ?thesis using False by (simp add: row restore_rows_Cons)
  qed
qed

lemma restore_rows_keeps_job:
  "registry_ok s \<Longrightarrow> k \<notin> (\<lambda>row. Num (fst row)) ` set rows \<Longrightarrow> job_running s k x \<Longrightarrow>
     job_running (restore_rows validate rows s) k x"
proof (induction rows arbitrary: s)
  case Nil
  then show ?case by simp
next
  case (Cons row rows)
  obtain i e where row: "row = (i, e)" by (cases row)
  from Cons.prems have k: "k \<noteq> Num i" "k \<notin> (\<lambda>row. Num (fst row)) ` set rows"
    by (auto simp: row)
  let ?s1 = "snd (startJob validate (Num i) e s)"
  have ok: "registry_ok ?s1" by (rule registry_ok_startJob [OF Cons.prems(1)])
  have run: "job_running ?s1 k x"
    by (rule job_running_startJob_other [OF Cons.prems(1) k(1) Cons.prems(3)])
  show ?case
  proof (cases "validate e")
    case True
    then show ?thesis
      using Cons.IH [OF ok k(2) run] by (simp add: row restore_rows_Cons)
  next
    case False
    then have s1: "?s1 = stopJob (Num i) s" by (simp add: startJob_invalid)
    from ok run show ?thesis
      using False k(2) unfolding row restore_rows_Cons s1
      by (auto intro!: Cons.IH)
  qed
qed

lemma restore_rows_each:
  assumes "registry_ok s" "distinct (map fst rows)" "(i, e) \<in> set rows"
  shows "if validate e then job_running (restore_rows validate rows s) (Num i) e
         else activeJobs (restore_rows validate rows s) (Num i) = None \<and>
              WarnBadSchedule i (InvalidCron e) \<in> set (console (restore_rows validate rows s))"
  using assms
proof (induction rows arbitrary: s)
  case Nil
  then show ?case by simp
next
  case (Cons row rows)
  obtain j x where row: "row = (j, x)" by (cases row)
  let ?s1 = "snd (startJob validate (Num j) x s)"
  let ?s2 = "(stopJob (Num j) s)\<lparr>console := console (stopJob (Num j) s) @
                                         [WarnBadSchedule j (InvalidCron x)]\<rparr>"
  have ok1: "registry_ok ?s1" by (rule registry_ok_startJob [OF Cons.prems(1)])
  have ok2: "registry_ok ?s2" using registry_ok_stopJob [OF Cons.prems(1)] by simp
  from Cons.prems(2) have d: "distinct (map fst rows)" "j \<notin> fst ` set rows"
    by (simp_all add: row)
  show ?case
  proof (cases "(i, e) = (j, x)")
    case True
    then have ie: "i = j" "e = x" by simp_all
    from d(2) have fresh: "Num j \<notin> (\<lambda>row. Num (fst row)) ` set rows" by auto
    show ?thesis
    proof (cases "validate x")
      case True
      have "job_running (restore_rows validate rows ?s1) (Num j) x"
        by (rule restore_rows_keeps_job [OF ok1 fresh
            job_running_startJob_self [where validate = validate and e = x, OF True]])
      with True show ?thesis by (simp add: row ie restore_rows_Cons)
    next
      case False
      have "activeJobs (restore_rows validate rows ?s2) (Num j) = None"
        using restore_rows_other [OF fresh, of validate ?s2] by (simp add: stopJob_inactive)
      moreover have "WarnBadSchedule j (InvalidCron x) \<in> set (console (restore_rows validate rows ?s2))"
        using restore_rows_console [of ?s2 validate rows] by auto
      ultimately show ?thesis using False by (simp add: row ie restore_rows_Cons)
    qed
  next
    case False
    with Cons.prems(3) have mem: "(i, e) \<in> set rows" by (auto simp: row)
    show ?thesis
    proof (cases "validate x")
      case True
      then show ?thesis
        using Cons.IH [OF ok1 d(1) mem] by (simp add: row restore_rows_Cons)
    next
      case False
      then show ?thesis
        using Cons.IH [OF ok2 d(1) mem] by (simp add: row restore_rows_Cons)
    qed
  qed
qed

lemma select_enabled_Cons:
  "select_enabled_schedules (r # clients) =
     (case c_schedule r of
        None \<Rightarrow> []
      | Some e \<Rightarrow> if c_schedule_enabled r = Some True then [(c_id r, e)] else [])
     @ select_enabled_schedules clients"
  by (simp add: select_enabled_schedules_def)

lemma select_enabled_mem:
  "(i, e) \<in> set (select_enabled_schedules clients) \<longleftrightarrow>
     (\<exists>r \<in> set clients. c_id r = i \<and> c_schedule r = Some e \<and> c_schedule_enabled r = Some True)"
proof (induction clients)
  case Nil
  show ?case by (simp add: select_enabled_schedules_def)
next
  case (Cons r clients)
  show ?case
    unfolding select_enabled_Cons set_append Un_iff Cons.IH
    by (cases "c_schedule r") auto
qed

lemma select_enabled_fst:
  "fst ` set (select_enabled_schedules clients) \<subseteq> c_id ` set clients"
  using select_enabled_mem [of _ _ clients] by force

lemma select_enabled_distinct:
  "distinct (map c_id clients) \<Longrightarrow> distinct (map fst (select_enabled_schedules clients))"
proof (induction clients)
  case Nil
  then show ?case by (simp add: select_enabled_schedules_def)
next
  case (Cons r clients)
  then have "c_id r \<notin> fst ` set (select_enabled_schedules clients)"
    using select_enabled_fst [of clients] by auto
  with Cons show ?case
    by (auto simp: select_enabled_Cons split: option.splits)
qed

lemma select_enabled_ignored:
  assumes "distinct (map c_id clients)" "r \<in> set clients"
    "c_schedule r = None \<or> c_schedule_enabled r \<noteq> Some True"
  shows "Num (c_id r) \<notin> (\<lambda>row. Num (fst row)) ` set (select_enabled_schedules clients)"
proof
  assume "Num (c_id r) \<in> (\<lambda>row. Num (fst row)) ` set (select_enabled_schedules clients)"
  then obtain e where "(c_id r, e) \<in> set (select_enabled_schedules clients)" by force
  then obtain r' where r': "r' \<in> set clients" "c_id r' = c_id r" "c_schedule r' = Some e"
    "c_schedule_enabled r' = Some True"
    by (auto simp: select_enabled_mem)
  from assms(1,2) r'(1,2) have "r' = r" by (auto simp: distinct_map inj_on_def)
  with r' assms(3) show False by auto
qed

lemma initSchedules_ok:
  "initSchedules validate None clients s =
     (Inr (), (restore_rows validate (select_enabled_schedules clients) s)
        \<lparr>console := console (restore_rows validate (select_enabled_schedules clients) s) @
                      [LogRestored (length (select_enabled_schedules clients))]\<rparr>)"
  by (simp add: initSchedules_def restore_body_def Let_def)

lemma initSchedules_returns: "fst (initSchedules validate fault clients s) = Inr ()"
  by (cases fault) (simp_all add: initSchedules_def restore_body_def Let_def)

lemma registry_ok_initSchedules:
  assumes "registry_ok s"
  shows "registry_ok (snd (initSchedules validate fault clients s))"
proof (cases fault)
  case None
  then show ?thesis using restore_rows_ok [OF assms] by (simp add: initSchedules_ok)
next
  case (Some msg)
  then show ?thesis using assms by (simp add: initSchedules_def restore_body_def)
qed

lemma registry_ok_run_ops: "registry_ok s \<Longrightarrow> registry_ok (run_ops validate ops s)"
proof (induction ops arbitrary: s)
  case Nil
  then show ?case by simp
next
  case (Cons a ops)
  then show ?case
    by (cases a)
      (simp_all add: registry_ok_startJob registry_ok_stopJob registry_ok_initSchedules)
qed

lemma registry_ok_reachable: "registry_ok (run_ops validate ops initial_state)"
  by (rule registry_ok_run_ops [OF registry_ok_initial])

lemma sample_clients_run:
  "snd (initSchedules sample_validate None sample_clients initial_state) =
     \<lparr>tasks = [\<lparr>expression = ''*/5 * * * *'', owner = Num 1, running = True\<rparr>],
      activeJobs = [Num 1 \<mapsto> 0],
      console = [LogScheduled (Num 1) ''*/5 * * * *'',
                 WarnBadSchedule 2 (InvalidCron ''not-a-cron''), LogRestored 2]\<rparr>"
  by (simp add: initSchedules_ok sample_clients_def select_enabled_schedules_def
      restore_rows_Cons sample_validate_def startJob_def stopJob_def initial_state_def
      numeral_2_eq_2)


section \<open>Claims about the job registry\<close>

lemma stopJob_stops:
  "activeJobs s c = Some h \<Longrightarrow> h < length (tasks s) \<Longrightarrow>
     tasks (stopJob c s) ! h = (tasks s ! h)\<lparr>running := False\<rparr>"
  by (simp add: stopJob_def stop_task_def)

text \<open>
  C1. In every state the registry can reach, a client has at most one task that still
  fires. Two calls of \<^verbatim>\<open>startJob\<close> for one client with valid expressions both
  return, and leave exactly one firing task for the client: the one of the second call,
  under the second expression, entered in the Map. The task of the first call is
  stopped, and no task of the client fires at the moment the second one is created.
\<close>

theorem one_live_timer_per_client:
  assumes "validate e1" and "validate e2"
    and "s0 = run_ops validate ops initial_state"
    and "s1 = snd (startJob validate c e1 s0)"
    and "s2 = snd (startJob validate c e2 s1)"
  shows "length (live_timers s0 k) \<le> 1 \<and> length (live_timers s1 k) \<le> 1 \<and>
     length (live_timers s2 k) \<le> 1 \<and>
     fst (startJob validate c e1 s0) = Inr () \<and> fst (startJob validate c e2 s1) = Inr () \<and>
     activeJobs s1 c = Some (length (tasks s0)) \<and>
     activeJobs s2 c = Some (Suc (length (tasks s0))) \<and>
     live_timers s2 c = [Suc (length (tasks s0))] \<and>
     tasks s2 ! Suc (length (tasks s0)) = \<lparr>expression = e2, owner = c, running = True\<rparr> \<and>
     tasks s2 ! length (tasks s0) = \<lparr>expression = e1, owner = c, running = False\<rparr> \<and>
     live_timers (stopJob c s1) c = []"
proof -
  have ok0: "registry_ok s0" unfolding assms(3) by (rule registry_ok_reachable)
  have ok1: "registry_ok s1" unfolding assms(4) by (rule registry_ok_startJob [OF ok0])
  have ok2: "registry_ok s2" unfolding assms(5) by (rule registry_ok_startJob [OF ok1])
  have t1: "tasks s1 = tasks (stopJob c s0) @ [\<lparr>expression = e1, owner = c, running = True\<rparr>]"
    and a1: "activeJobs s1 c = Some (length (tasks s0))"
    using assms(1) by (simp_all add: assms(4) startJob_valid)
  have len1: "length (tasks s1) = Suc (length (tasks s0))"
    by (simp add: t1 stopJob_length)
  have at1: "tasks s1 ! length (tasks s0) = \<lparr>expression = e1, owner = c, running = True\<rparr>"
    by (simp add: t1 nth_append stopJob_length)
  have st: "tasks (stopJob c s1) ! length (tasks s0) =
      \<lparr>expression = e1, owner = c, running = False\<rparr>"
    using stopJob_stops [OF a1] by (simp add: len1 at1)
  have t2: "tasks s2 = tasks (stopJob c s1) @ [\<lparr>expression = e2, owner = c, running = True\<rparr>]"
    and a2: "activeJobs s2 c = Some (Suc (length (tasks s0)))"
    using assms(2) by (simp_all add: assms(5) startJob_valid len1)
  have at2: "tasks s2 ! Suc (length (tasks s0)) = \<lparr>expression = e2, owner = c, running = True\<rparr>"
    using len1 by (simp add: t2 nth_append stopJob_length)
  have old: "tasks s2 ! length (tasks s0) = \<lparr>expression = e1, owner = c, running = False\<rparr>"
    using st len1 by (simp add: t2 nth_append stopJob_length)
  have r1: "fst (startJob validate c e1 s0) = Inr ()"
    using assms(1) by (simp add: startJob_valid)
  have r2: "fst (startJob validate c e2 s1) = Inr ()"
    using assms(2) by (simp add: startJob_valid)
  have gap: "live_timers (stopJob c s1) c = []"
    by (rule live_timers_none [OF registry_ok_stopJob [OF ok1] stopJob_inactive])
  show ?thesis
    using live_timers_at_most_one [OF ok0, of k] live_timers_at_most_one [OF ok1, of k]
      live_timers_at_most_one [OF ok2, of k] live_timers_of_entry [OF ok2 a2]
      r1 r2 a1 a2 at2 old gap
    by simp
qed

lemma sample_validate_simps:
  "sample_validate ''*/5 * * * *''" "sample_validate ''0 3 * * *''"
  "\<not> sample_validate ''not-a-cron''"
  by (simp_all add: sample_validate_def)

theorem one_live_timer_per_client_witness:
  "sample_validate ''*/5 * * * *'' \<and> sample_validate ''0 3 * * *'' \<and>
   live_timers
     (snd (startJob sample_validate (Num 1) ''0 3 * * *''
        (snd (startJob sample_validate (Num 1) ''*/5 * * * *''
           (run_ops sample_validate
              [Recover None sample_clients, Start (Num 2) ''0 3 * * *'', Stop (Num 2)]
              initial_state)))))
     (Num 1) = [3]"
  using one_live_timer_per_client [where validate = sample_validate
      and ?e1.0 = "''*/5 * * * *''" and ?e2.0 = "''0 3 * * *''"
      and ops = "[Recover None sample_clients, Start (Num 2) ''0 3 * * *'', Stop (Num 2)]"
      and c = "Num 1" and k = "Num 1",
      OF _ _ refl refl refl]
  by (simp add: sample_validate_simps sample_clients_run startJob_def stopJob_def
      stop_task_def)

text \<open>
  C2, as stated, fails: \<^verbatim>\<open>startJob\<close> calls \<^verbatim>\<open>stopJob\<close> before it validates. Client 1
  has a firing job; a call with an expression that is not valid throws, and the job is
  gone from the registry and stopped.
\<close>

theorem start_invalid_keeps_registry_counterexample:
  "isActive sample_registry (Num 1) \<and>
   live_timers sample_registry (Num 1) = [0] \<and>
   sample_validate ''not-a-cron'' = False \<and>
   fst (startJob sample_validate (Num 1) ''not-a-cron'' sample_registry)
     = Inl (InvalidCron ''not-a-cron'') \<and>
   snd (startJob sample_validate (Num 1) ''not-a-cron'' sample_registry) \<noteq> sample_registry \<and>
   \<not> isActive (snd (startJob sample_validate (Num 1) ''not-a-cron'' sample_registry)) (Num 1) \<and>
   live_timers (snd (startJob sample_validate (Num 1) ''not-a-cron'' sample_registry)) (Num 1) = []"
  by (simp add: sample_registry_def sample_validate_def startJob_def stopJob_def stop_task_def
      initial_state_def isActive_def live_timers_def)

text \<open>
  C2, amended. With an expression that is not valid, \<^verbatim>\<open>startJob\<close> throws the error
  for that expression and leaves the registry as \<^verbatim>\<open>stopJob\<close> for the client leaves
  it: the client has no entry, the task it had is stopped, no task is created, the
  entries of the other clients are as before, and a client without an entry sees no
  change at all.
\<close>

theorem start_invalid_stops_then_throws:
  assumes "\<not> validate e" and "r = startJob validate c e s"
  shows "fst r = Inl (InvalidCron e) \<and> snd r = stopJob c s \<and>
     \<not> isActive (snd r) c \<and>
     length (tasks (snd r)) = length (tasks s) \<and>
     (\<forall>h. activeJobs s c = Some h \<and> h < length (tasks s) \<longrightarrow> \<not> running (tasks (snd r) ! h)) \<and>
     (\<forall>k. k \<noteq> c \<longrightarrow> activeJobs (snd r) k = activeJobs s k) \<and>
     (\<not> isActive s c \<longrightarrow> snd r = s)"
proof -
  have r: "r = (Inl (InvalidCron e), stopJob c s)"
    using assms by (simp add: startJob_invalid)
  have "\<not> running (tasks (stopJob c s) ! h)" if "activeJobs s c = Some h \<and> h < length (tasks s)" for h
    using that stopJob_stops [of s c h] by simp
  moreover have "\<not> isActive s c \<longrightarrow> stopJob c s = s"
    by (simp add: isActive_def stopJob_def)
  ultimately show ?thesis
    by (simp add: r isActive_def stopJob_inactive stopJob_other stopJob_length)
qed

theorem start_invalid_stops_then_throws_witness:
  "\<not> sample_validate ''not-a-cron'' \<and>
   activeJobs sample_registry (Num 1) = Some 0 \<and>
   fst (startJob sample_validate (Num 1) ''not-a-cron'' sample_registry)
     = Inl (InvalidCron ''not-a-cron'') \<and>
   \<not> running (tasks (snd (startJob sample_validate (Num 1) ''not-a-cron'' sample_registry)) ! 0)"
  using start_invalid_stops_then_throws [where validate = sample_validate
      and e = "''not-a-cron''" and c = "Num 1" and s = sample_registry, OF _ refl]
  by (simp add: sample_validate_simps sample_registry_def startJob_def stopJob_def stop_task_def
      initial_state_def)


section \<open>Claims about the recovery at boot\<close>

text \<open>
  C5. \<^verbatim>\<open>initSchedules\<close> returns without throwing, whatever the store answers. When the
  query answers, every stored client is dealt with on its own: one with a schedule,
  the enabled flag and a valid expression has a firing job under that expression; one
  whose stored expression is not valid has no job and a warning on the console;
  one without a schedule or without the flag keeps the registry entry it had (none at
  boot).
\<close>

theorem initSchedules_isolates_failures:
  assumes "s = run_ops validate ops initial_state"
    and "distinct (map c_id clients)"
    and "s' = snd (initSchedules validate None clients s)"
    and "r \<in> set clients"
  shows "fst (initSchedules validate fault clients s) = Inr () \<and>
     (case c_schedule r of
        None \<Rightarrow> activeJobs s' (Num (c_id r)) = activeJobs s (Num (c_id r))
      | Some e \<Rightarrow>
          if c_schedule_enabled r \<noteq> Some True
            then activeJobs s' (Num (c_id r)) = activeJobs s (Num (c_id r))
          else if validate e then job_running s' (Num (c_id r)) e
          else \<not> isActive s' (Num (c_id r)) \<and>
               WarnBadSchedule (c_id r) (InvalidCron e) \<in> set (console s'))"
proof -
  let ?rows = "select_enabled_schedules clients"
  let ?t = "restore_rows validate ?rows s"
  have ok: "registry_ok s" unfolding assms(1) by (rule registry_ok_reachable)
  have d: "distinct (map fst ?rows)" by (rule select_enabled_distinct [OF assms(2)])
  have a': "activeJobs s' = activeJobs ?t" and c': "set (console ?t) \<subseteq> set (console s')"
    and j': "\<And>k x. job_running s' k x = job_running ?t k x"
    by (auto simp: assms(3) initSchedules_ok)
  have ignored: "activeJobs s' (Num (c_id r)) = activeJobs s (Num (c_id r))"
    if "c_schedule r = None \<or> c_schedule_enabled r \<noteq> Some True"
    using restore_rows_other [OF select_enabled_ignored [OF assms(2,4) that]] by (simp add: a')
  have chosen: "if validate e then job_running s' (Num (c_id r)) e
      else \<not> isActive s' (Num (c_id r)) \<and> WarnBadSchedule (c_id r) (InvalidCron e) \<in> set (console s')"
    if "c_schedule r = Some e" "c_schedule_enabled r = Some True" for e
  proof -
    from that assms(4) have "(c_id r, e) \<in> set ?rows" by (auto simp: select_enabled_mem)
    from restore_rows_each [OF ok d this, of validate] show ?thesis
      using c' by (auto simp: j' a' isActive_def)
  qed
  show ?thesis
    using ignored chosen by (auto simp: initSchedules_returns split: option.splits)
qed

theorem initSchedules_isolates_failures_witness:
  "distinct (map c_id sample_clients) \<and>
   fst (initSchedules sample_validate None sample_clients initial_state) = Inr () \<and>
   job_running (snd (initSchedules sample_validate None sample_clients initial_state))
     (Num 1) ''*/5 * * * *'' \<and>
   \<not> isActive (snd (initSchedules sample_validate None sample_clients initial_state)) (Num 2) \<and>
   WarnBadSchedule 2 (InvalidCron ''not-a-cron'') \<in>
     set (console (snd (initSchedules sample_validate None sample_clients initial_state))) \<and>
   activeJobs (snd (initSchedules sample_validate None sample_clients initial_state)) (Num 3) = None"
proof -
  have d: "distinct (map c_id sample_clients)" by (simp add: sample_clients_def)
  have s: "initial_state = run_ops sample_validate [] initial_state" by simp
  note th = initSchedules_isolates_failures [where validate = sample_validate and fault = None,
      OF s d refl]
  have "sample_clients ! 0 \<in> set sample_clients" "sample_clients ! 1 \<in> set sample_clients"
    "sample_clients ! 2 \<in> set sample_clients"
    by (simp_all add: sample_clients_def)
  moreover have "activeJobs initial_state (Num 3) = None" by (simp add: initial_state_def)
  ultimately show ?thesis
    using th [of "sample_clients ! 0"] th [of "sample_clients ! 1"] th [of "sample_clients ! 2"] d
    by (simp add: sample_clients_def sample_validate_def)
qed

text \<open>
  C6, at the example of the specification: two rows are fetched, one job is started
  (client 1), none for client 2, and the console says that 2 jobs were restored.
\<close>

theorem initSchedules_logs_fetched_rows:
  "console (snd (initSchedules sample_validate None sample_clients initial_state)) =
     [LogScheduled (Num 1) ''*/5 * * * *'', WarnBadSchedule 2 (InvalidCron ''not-a-cron''),
      LogRestored 2] \<and>
   restored_count sample_validate sample_clients = 1 \<and>
   map (isActive (snd (initSchedules sample_validate None sample_clients initial_state)))
     [Num 1, Num 2, Num 3] = [True, False, False]"
proof -
  have "restored_count sample_validate sample_clients = 1"
    by (simp add: restored_count_def sample_clients_def select_enabled_schedules_def
        sample_validate_def)
  then show ?thesis
    by (simp add: sample_clients_run isActive_def)
qed


section \<open>Claims about the handlers of the GUI service\<close>

text \<open>
  C4. \<^verbatim>\<open>resolveFormFactor\<close> is a function of its two arguments. A platform of mobile
  or desktop is returned whatever was requested; for the platform both the requested
  form factor is returned (mobile when none was passed); and for a platform among
  mobile, desktop and both and a request of mobile or desktop the result is mobile or
  desktop.
\<close>

theorem resolveFormFactor_platform_wins:
  "(platform = ''mobile'' \<or> platform = ''desktop'' \<longrightarrow>
      resolveFormFactor platform requested = platform) \<and>
   resolveFormFactor ''both'' (Some f) = f \<and>
   resolveFormFactor ''both'' None = ''mobile'' \<and>
   (platform \<in> {''mobile'', ''desktop'', ''both''} \<and> f \<in> {''mobile'', ''desktop''} \<longrightarrow>
      resolveFormFactor platform (Some f) \<in> {''mobile'', ''desktop''})"
  by (auto simp: resolveFormFactor_def)

theorem resolveFormFactor_platform_wins_witness:
  "resolveFormFactor ''desktop'' (Some ''mobile'') = ''desktop'' \<and>
   resolveFormFactor ''mobile'' (Some ''desktop'') = ''mobile'' \<and>
   resolveFormFactor ''both'' (Some ''desktop'') \<in> {''mobile'', ''desktop''}"
  using resolveFormFactor_platform_wins [of "''desktop''" "Some ''mobile''" "''desktop''"]
    resolveFormFactor_platform_wins [of "''mobile''" "Some ''desktop''" "''desktop''"]
    resolveFormFactor_platform_wins [of "''both''" "None" "''desktop''"]
  by simp

text \<open>
  C7, at a request with a name and a string that is no URL: the \<^verbatim>\<open>TypeError\<close> of
  \<^verbatim>\<open>new URL\<close> is caught by the handler's own \<^verbatim>\<open>catch\<close>, carries no code 23505, and
  is answered with status 500, whatever the store would have said. The audit engine
  answers the same string with status 400.
\<close>

theorem post_clients_invalid_url_status:
  "post_clients sample_valid_url
     \<lparr>req_name = Some ''Acme'', req_url = Some ''not a url'', req_platform = None\<rparr> inserted
     = \<lparr>status = 500, body = ErrorText ''Invalid URL''\<rparr> \<and>
   fst (audit_handler sample_valid_url mul faults engine
     \<lparr>q_url = Some ''not a url'', q_client_id = None, q_form_factor = None\<rparr> db)
     = \<lparr>http_status = 400, http_body = InvalidUrlFormat\<rparr>"
  by (simp add: post_clients_def audit_handler_def sample_valid_url_def truthy_def js_str_def
      invalid_url_error_def)

text \<open>
  C10. \<^verbatim>\<open>DELETE /api/clients/:id\<close> calls \<^verbatim>\<open>stopJob\<close> for the parsed id before it
  sends the DELETE: whatever the store answers, the registry is left as \<^verbatim>\<open>stopJob\<close>
  leaves it, the id has no entry, and the task it had is stopped. When the store
  answers, the response is 200 with \<^verbatim>\<open>{ success: true }\<close>, for any number of deleted
  rows, none included.
\<close>

theorem delete_client_stops_job:
  "snd (delete_client parseInt id_param deleted s) = stopJob (parseInt id_param) s \<and>
   \<not> isActive (snd (delete_client parseInt id_param deleted s)) (parseInt id_param) \<and>
   (\<forall>h. activeJobs s (parseInt id_param) = Some h \<and> h < length (tasks s) \<longrightarrow>
        \<not> running (tasks (snd (delete_client parseInt id_param deleted s)) ! h)) \<and>
   fst (delete_client parseInt id_param (Inr rowCount) s) = \<lparr>status = 200, body = SuccessTrue\<rparr> \<and>
   fst (delete_client parseInt id_param (Inr 0) s) = \<lparr>status = 200, body = SuccessTrue\<rparr>"
proof -
  have s: "snd (delete_client parseInt id_param deleted s) = stopJob (parseInt id_param) s"
    by (simp add: delete_client_def Let_def split: sum.splits)
  have "\<not> running (tasks (stopJob (parseInt id_param) s) ! h)"
    if "activeJobs s (parseInt id_param) = Some h \<and> h < length (tasks s)" for h
    using that stopJob_stops [of s "parseInt id_param" h] by simp
  then show ?thesis
    unfolding s by (simp add: isActive_def stopJob_inactive delete_client_def)
qed

theorem delete_client_stops_job_witness:
  "activeJobs sample_registry (Num 1) = Some 0 \<and>
   \<not> running (tasks (snd (delete_client (\<lambda>p. Num 1) ''1'' (Inr 1) sample_registry)) ! 0) \<and>
   \<not> isActive (snd (delete_client (\<lambda>p. Num 7) ''7'' (Inr 0) sample_registry)) (Num 7) \<and>
   fst (delete_client (\<lambda>p. Num 7) ''7'' (Inr 0) sample_registry)
     = \<lparr>status = 200, body = SuccessTrue\<rparr>"
  using delete_client_stops_job [of "\<lambda>p. Num 1" "''1''" "Inr 1" sample_registry 1]
    delete_client_stops_job [of "\<lambda>p. Num 7" "''7''" "Inr 0" sample_registry 0]
  by (simp add: sample_registry_def sample_validate_def startJob_def stopJob_def
      stop_task_def isActive_def initial_state_def)


section \<open>Rows of the audits table\<close>

lemma find_skip:
  "list_all (\<lambda>r. \<not> P r) xs \<Longrightarrow> find P (xs @ ys) = find P ys"
  by (induction xs) auto


lemma store_ok_fresh:
  "store_ok db \<Longrightarrow> list_all (\<lambda>r. \<not> a_id r = Suc (audits_seq db)) (audits db)"
  unfolding store_ok_def list_all_iff by auto

lemma store_ok_reject_insert: "store_ok db \<Longrightarrow> store_ok (reject_insert rej db)"
  unfolding store_ok_def list_all_iff reject_insert_def by auto

lemma audits_reject_insert [simp]: "audits (reject_insert rej db) = audits db"
  by (simp add: reject_insert_def)


lemma find_row_insert_running:
  assumes "store_ok db"
  shows "find_row (snd (insert_running c ff db)) (Suc (audits_seq db)) =
     Some \<lparr>a_id = Suc (audits_seq db), a_client_id = c, a_form_factor = ff,
            a_performance = None, a_accessibility = None, a_best_practices = None,
            a_seo = None, a_pwa = None, a_report_json = None,
            a_status = ''running'', a_error_message = None\<rparr>"
  using find_skip [OF store_ok_fresh [OF assms]]
  by (simp add: find_row_def insert_running_def Let_def)


lemma find_map_same_id:
  assumes "\<And>r. a_id (f r) = a_id r"
  shows "find (\<lambda>r. a_id r = i) (map f xs) = map_option f (find (\<lambda>r. a_id r = i) xs)"
  by (induction xs) (simp_all add: assms)

lemma find_row_update_completed:
  "find_row db i = Some row \<Longrightarrow>
     find_row (update_completed sc doc i db) i =
       Some (row\<lparr>a_performance := Some (performance sc),
                 a_accessibility := Some (accessibility sc),
                 a_best_practices := Some (best_practices sc),
                 a_seo := Some (seo sc), a_pwa := Some (pwa sc),
                 a_report_json := Some doc, a_status := ''completed''\<rparr>)"
proof -
  assume row: "find_row db i = Some row"
  then have "a_id row = i"
    by (auto simp: find_row_def find_Some_iff)
  with row show ?thesis
    unfolding find_row_def update_completed_def
    by (simp add: find_map_same_id)
qed





lemma create_record_inserted:
  "truthy (q_client_id req) \<Longrightarrow> insert_running_fault faults = None \<Longrightarrow>
     create_record faults req ff db =
       (Some (Suc (audits_seq db)), snd (insert_running (js_str (q_client_id req)) ff db))"
  by (simp add: create_record_def insert_running_def Let_def)

lemma create_record_rejected:
  "truthy (q_client_id req) \<Longrightarrow> insert_running_fault faults = Some rej \<Longrightarrow>
     create_record faults req ff db = (None, reject_insert rej db)"
  by (simp add: create_record_def)

lemma create_record_no_client:
  "\<not> truthy (q_client_id req) \<Longrightarrow> create_record faults req ff db = (None, db)"
  by (simp add: create_record_def)

lemma audit_handler_valid:
  "truthy (q_url req) \<Longrightarrow> valid_url (js_str (q_url req)) \<Longrightarrow>
     audit_handler valid_url mul faults engine req db =
       finish_audit mul faults engine req (form_factor_of req)
         (fst (create_record faults req (form_factor_of req) db))
         (snd (create_record faults req (form_factor_of req) db))"
  by (simp add: audit_handler_def split: prod.splits)

text \<open>A run that has its row: what is answered, and which statement is applied.\<close>

lemma finish_audit_with_record:
  "i \<noteq> 0 \<Longrightarrow>
     finish_audit mul faults engine req ff (Some i) db =
       (case engine of
          Inl msg \<Rightarrow>
            (\<lparr>http_status = 500, http_body = AuditFailure msg\<rparr>,
             if update_failed_fault faults = None then update_failed msg i db else db)
        | Inr l \<Rightarrow>
            (case update_completed_fault faults of
               None \<Rightarrow>
                 (\<lparr>http_status = 200,
                   http_body = AuditSuccess (js_str (q_url req)) ff (compute_scores mul l)
                                 (Some i)\<rparr>,
                  update_completed (compute_scores mul l) (report l) i db)
             | Some msg \<Rightarrow>
                 (\<lparr>http_status = 500, http_body = AuditFailure msg\<rparr>,
                  if update_failed_fault faults = None then update_failed msg i db else db)))"
  by (auto simp: finish_audit_def try_audit_def split: sum.splits option.splits)

text \<open>A run without a row.\<close>

lemma finish_audit_without_record:
  "finish_audit mul faults engine req ff None db =
     (case engine of
        Inl msg \<Rightarrow> (\<lparr>http_status = 500, http_body = AuditFailure msg\<rparr>, db)
      | Inr l \<Rightarrow>
          if truthy (q_client_id req) then
            (case insert_completed_fault faults of
               Some rej \<Rightarrow>
                 (\<lparr>http_status = 500, http_body = AuditFailure (reject_message rej)\<rparr>,
                  reject_insert rej db)
             | None \<Rightarrow>
                 (\<lparr>http_status = 200,
                   http_body = AuditSuccess (js_str (q_url req)) ff (compute_scores mul l)
                                 (Some (Suc (audits_seq db)))\<rparr>,
                  snd (insert_completed (js_str (q_client_id req)) ff (compute_scores mul l)
                         (report l) db)))
          else
            (\<lparr>http_status = 200,
              http_body = AuditSuccess (js_str (q_url req)) ff (compute_scores mul l) None\<rparr>,
             db))"
  by (auto simp: finish_audit_def try_audit_def save_without_record_def insert_completed_def
      Let_def split: sum.splits option.splits)


lemma find_row_insert_completed:
  assumes "store_ok db"
  shows "find_row (snd (insert_completed c ff sc doc db)) (Suc (audits_seq db)) =
     Some \<lparr>a_id = Suc (audits_seq db), a_client_id = c, a_form_factor = ff,
         a_performance = Some (performance sc), a_accessibility = Some (accessibility sc),
         a_best_practices = Some (best_practices sc), a_seo = Some (seo sc),
         a_pwa = Some (pwa sc), a_report_json = Some doc,
         a_status = ''completed'', a_error_message = None\<rparr>"
  using find_skip [OF store_ok_fresh [OF assms]]
  by (simp add: find_row_def insert_completed_def Let_def)


section \<open>Claims about the audit engine\<close>





text \<open>
  C8, as stated, fails: a request without a client id whose audit succeeds is
  answered with the scores, and the table is as empty afterwards as it was before.
\<close>

theorem audit_without_client_counterexample:
  "q_client_id (sample_request\<lparr>q_client_id := None\<rparr>) = None \<and>
   fst (audit_handler sample_valid_url sample_mul no_faults (Inr sample_lhr)
          (sample_request\<lparr>q_client_id := None\<rparr>) empty_store) =
     \<lparr>http_status = 200,
      http_body = AuditSuccess ''https://a.com'' ''desktop'' (compute_scores sample_mul sample_lhr) None\<rparr> \<and>
   audits (snd (audit_handler sample_valid_url sample_mul no_faults (Inr sample_lhr)
          (sample_request\<lparr>q_client_id := None\<rparr>) empty_store)) = []"
  by (simp add: sample_request_def no_faults_def empty_store_def sample_valid_url_def
      audit_handler_def create_record_def finish_audit_def try_audit_def
      save_without_record_def form_factor_of_def truthy_def js_str_def)

text \<open>
  C8, amended. A request with a valid URL and without a client id (absent or empty)
  writes no row at all, neither before the audit nor after it, whatever the audit
  yields; when the audit succeeds the response is 200 with the scores and the audit id
  \<^verbatim>\<open>null\<close>.
\<close>

theorem audit_without_client_writes_nothing:
  assumes "truthy (q_url req)" and "valid_url (js_str (q_url req))"
    and "\<not> truthy (q_client_id req)"
  shows "create_record faults req (form_factor_of req) db = (None, db) \<and>
     snd (audit_handler valid_url mul faults engine req db) = db \<and>
     audit_handler valid_url mul faults (Inr l) req db =
       (\<lparr>http_status = 200,
         http_body = AuditSuccess (js_str (q_url req)) (form_factor_of req)
                       (compute_scores mul l) None\<rparr>, db)"
  using assms(3)
  by (simp add: audit_handler_valid [where valid_url = valid_url, OF assms(1,2)]
      create_record_no_client finish_audit_without_record split: sum.splits)

theorem audit_without_client_writes_nothing_witness:
  "truthy (q_url (sample_request\<lparr>q_client_id := Some []\<rparr>)) \<and>
   sample_valid_url (js_str (q_url (sample_request\<lparr>q_client_id := Some []\<rparr>))) \<and>
   \<not> truthy (q_client_id (sample_request\<lparr>q_client_id := Some []\<rparr>)) \<and>
   snd (audit_handler sample_valid_url sample_mul no_faults (Inr sample_lhr)
          (sample_request\<lparr>q_client_id := Some []\<rparr>) empty_store) = empty_store \<and>
   http_status (fst (audit_handler sample_valid_url sample_mul no_faults (Inr sample_lhr)
          (sample_request\<lparr>q_client_id := Some []\<rparr>) empty_store)) = 200"
  using audit_without_client_writes_nothing [where valid_url = sample_valid_url
      and mul = sample_mul and req = "sample_request\<lparr>q_client_id := Some []\<rparr>" and faults = no_faults
      and engine = "Inr sample_lhr" and l = sample_lhr and db = empty_store]
  by (simp add: sample_request_def sample_valid_url_def truthy_def js_str_def)

lemma js_round_nearest:
  "x - 1 / 2 < real_of_int (js_round x) \<and> real_of_int (js_round x) \<le> x + 1 / 2"
proof -
  have "real_of_int \<lfloor>x + 1 / 2\<rfloor> \<le> x + 1 / 2" by (rule of_int_floor_le)
  moreover have "x + 1 / 2 < real_of_int \<lfloor>x + 1 / 2\<rfloor> + 1" by linarith
  ultimately show ?thesis unfolding js_round_def by linarith
qed

lemma js_round_percent:
  assumes "0 \<le> x" "x \<le> 100"
  shows "percent (js_round x)"
proof -
  from assms(1) have "0 \<le> \<lfloor>x + 1 / 2\<rfloor>" by simp
  moreover from assms(2) have "x + 1 / 2 < of_int 101" by simp
  then have "\<lfloor>x + 1 / 2\<rfloor> < 101" by (simp only: floor_less_iff)
  ultimately show ?thesis by (simp add: percent_def js_round_def)
qed

lemma no_score_zero:
  assumes "double_product mul" "no_score c"
  shows "js_round (mul (category_score c) 100) = 0"
proof -
  from assms(2) have "category_score c = 0"
    by (auto simp: no_score_def category_score_def split: option.splits)
  moreover from assms(1) have "mul 0 100 = 0" by (simp add: double_product_def)
  ultimately show ?thesis by (simp add: js_round_def)
qed

lemma category_score_recorded:
  assumes "double_product mul"
  shows "score_recorded mul c (js_round (mul (category_score c) 100))"
proof (cases "no_score c")
  case True
  with no_score_zero [OF assms True] show ?thesis
    by (auto simp: score_recorded_def no_score_def split: option.splits)
next
  case False
  then obtain cat v where c: "c = Some cat" "score cat = Some v"
    by (auto simp: no_score_def split: option.splits)
  then have "category_score c = v" by (simp add: category_score_def)
  with c js_round_nearest [of "mul v 100"] show ?thesis
    by (simp add: score_recorded_def)
qed

lemma category_score_percent:
  assumes "double_product mul" "unit_score c"
  shows "percent (js_round (mul (category_score c) 100))"
proof -
  from assms(2) have "0 \<le> category_score c \<and> category_score c \<le> 1"
    by (auto simp: unit_score_def category_score_def split: option.splits)
  with assms(1) have "0 \<le> mul (category_score c) 100" "mul (category_score c) 100 \<le> 100"
    by (simp_all add: double_product_def)
  then show ?thesis by (rule js_round_percent)
qed

lemma compute_scores_percent:
  "double_product mul \<Longrightarrow> lhr_ok l \<Longrightarrow> percent_scores (compute_scores mul l)"
  by (simp add: lhr_ok_def percent_scores_def compute_scores_def category_score_percent)

lemma column_records_compute:
  "double_product mul \<Longrightarrow> unit_score c \<Longrightarrow>
     column_records mul c (Some (js_round (mul (category_score c) 100)))"
  by (simp add: column_records_def category_score_recorded category_score_percent)

text \<open>
  C9. Let the double product have its two properties. Each of the five scores is what
  its category is recorded as: 0 for a category that is absent or whose score is
  \<^verbatim>\<open>null\<close>, and otherwise the integer nearest to the product of the score with 100.
  For a result whose scores are fractions between 0 and 1 the five scores are integers
  from 0 to 100. When a request with a client id is answered with success, the row
  under the audit id of the response is completed, and each of its five score columns
  holds, not \<^verbatim>\<open>NULL\<close>, what its category is recorded as: the integer 0 for a category
  without a score.
\<close>

theorem scores_default_to_zero:
  assumes "double_product mul" and "lhr_ok l"
    and "truthy (q_url req)" and "valid_url (js_str (q_url req))"
    and "truthy (q_client_id req)" and "store_ok db"
    and "created = create_record faults req (form_factor_of req) db"
    and "result = audit_handler valid_url mul faults (Inr l) req db"
    and "http_status (fst result) = 200"
    and "aid = (case fst created of Some i \<Rightarrow> i | None \<Rightarrow> Suc (audits_seq (snd created)))"
  shows
    "score_recorded mul (cat_performance l) (performance (compute_scores mul l)) \<and>
     score_recorded mul (cat_accessibility l) (accessibility (compute_scores mul l)) \<and>
     score_recorded mul (cat_best_practices l) (best_practices (compute_scores mul l)) \<and>
     score_recorded mul (cat_seo l) (seo (compute_scores mul l)) \<and>
     score_recorded mul (cat_pwa l) (pwa (compute_scores mul l)) \<and>
     percent_scores (compute_scores mul l) \<and>
     http_body (fst result) =
       AuditSuccess (js_str (q_url req)) (form_factor_of req) (compute_scores mul l) (Some aid) \<and>
     (\<exists>row. find_row (snd result) aid = Some row \<and> a_status row = ''completed'' \<and>
        column_records mul (cat_performance l) (a_performance row) \<and>
        column_records mul (cat_accessibility l) (a_accessibility row) \<and>
        column_records mul (cat_best_practices l) (a_best_practices row) \<and>
        column_records mul (cat_seo l) (a_seo row) \<and>
        column_records mul (cat_pwa l) (a_pwa row) \<and>
        (no_score (cat_performance l) \<longrightarrow> a_performance row = Some 0) \<and>
        (no_score (cat_accessibility l) \<longrightarrow> a_accessibility row = Some 0) \<and>
        (no_score (cat_best_practices l) \<longrightarrow> a_best_practices row = Some 0) \<and>
        (no_score (cat_seo l) \<longrightarrow> a_seo row = Some 0) \<and>
        (no_score (cat_pwa l) \<longrightarrow> a_pwa row = Some 0))"
proof -
  let ?ff = "form_factor_of req"
  let ?sc = "compute_scores mul l"
  note dp = assms(1)
  have unit: "unit_score (cat_performance l)" "unit_score (cat_accessibility l)"
    "unit_score (cat_best_practices l)" "unit_score (cat_seo l)" "unit_score (cat_pwa l)"
    using assms(2) by (simp_all add: lhr_ok_def)
  have rec: "score_recorded mul (cat_performance l) (performance ?sc)"
    "score_recorded mul (cat_accessibility l) (accessibility ?sc)"
    "score_recorded mul (cat_best_practices l) (best_practices ?sc)"
    "score_recorded mul (cat_seo l) (seo ?sc)"
    "score_recorded mul (cat_pwa l) (pwa ?sc)"
    by (simp_all add: compute_scores_def category_score_recorded [OF dp])
  have cols: "column_records mul (cat_performance l) (Some (performance ?sc))"
    "column_records mul (cat_accessibility l) (Some (accessibility ?sc))"
    "column_records mul (cat_best_practices l) (Some (best_practices ?sc))"
    "column_records mul (cat_seo l) (Some (seo ?sc))"
    "column_records mul (cat_pwa l) (Some (pwa ?sc))"
    using unit by (simp_all add: compute_scores_def column_records_compute [OF dp])
  have zero: "no_score (cat_performance l) \<longrightarrow> performance ?sc = 0"
    "no_score (cat_accessibility l) \<longrightarrow> accessibility ?sc = 0"
    "no_score (cat_best_practices l) \<longrightarrow> best_practices ?sc = 0"
    "no_score (cat_seo l) \<longrightarrow> seo ?sc = 0"
    "no_score (cat_pwa l) \<longrightarrow> pwa ?sc = 0"
    by (simp_all add: compute_scores_def no_score_zero [OF dp])
  have saved: "http_body (fst result) = AuditSuccess (js_str (q_url req)) ?ff ?sc (Some aid) \<and>
     (\<exists>row. find_row (snd result) aid = Some row \<and> a_status row = ''completed'' \<and>
            row_has_scores row ?sc)"
  proof (cases "insert_running_fault faults")
    case None
    let ?i = "Suc (audits_seq db)"
    let ?db1 = "snd (insert_running (js_str (q_client_id req)) ?ff db)"
    have created: "created = (Some ?i, ?db1)"
      unfolding assms(7) by (rule create_record_inserted [OF assms(5) None])
    then have aid: "aid = ?i" by (simp add: assms(10))
    have r: "result = finish_audit mul faults (Inr l) req ?ff (Some ?i) ?db1"
      using created
      unfolding assms(7,8) audit_handler_valid [where valid_url = valid_url, OF assms(3,4)]
      by simp
    from assms(9) have ok: "update_completed_fault faults = None"
      unfolding r by (simp add: finish_audit_with_record split: option.splits)
    have row: "find_row ?db1 ?i \<noteq> None"
      by (simp add: find_row_insert_running [OF assms(6)])
    then obtain row where row: "find_row ?db1 ?i = Some row" by auto
    show ?thesis
      unfolding r aid using ok find_row_update_completed [OF row]
      by (simp add: finish_audit_with_record row_has_scores_def)
  next
    case (Some rej)
    let ?db1 = "reject_insert rej db"
    have created: "created = (None, ?db1)"
      unfolding assms(7) by (rule create_record_rejected [OF assms(5) Some])
    then have aid: "aid = Suc (audits_seq ?db1)" by (simp add: assms(10))
    have r: "result = finish_audit mul faults (Inr l) req ?ff None ?db1"
      using created
      unfolding assms(7,8) audit_handler_valid [where valid_url = valid_url, OF assms(3,4)]
      by simp
    from assms(9) have ok: "insert_completed_fault faults = None"
      unfolding r by (simp add: finish_audit_without_record assms(5) split: option.splits)
    show ?thesis
      unfolding r aid
      using ok find_row_insert_completed [OF store_ok_reject_insert [OF assms(6)]]
      by (simp add: finish_audit_without_record assms(5) row_has_scores_def)
  qed
  then obtain row where row: "find_row (snd result) aid = Some row"
    "a_status row = ''completed''" "row_has_scores row ?sc"
    by auto
  from row(3) have eq: "a_performance row = Some (performance ?sc)"
    "a_accessibility row = Some (accessibility ?sc)"
    "a_best_practices row = Some (best_practices ?sc)"
    "a_seo row = Some (seo ?sc)" "a_pwa row = Some (pwa ?sc)"
    by (simp_all add: row_has_scores_def)
  have "find_row (snd result) aid = Some row \<and> a_status row = ''completed'' \<and>
        column_records mul (cat_performance l) (a_performance row) \<and>
        column_records mul (cat_accessibility l) (a_accessibility row) \<and>
        column_records mul (cat_best_practices l) (a_best_practices row) \<and>
        column_records mul (cat_seo l) (a_seo row) \<and>
        column_records mul (cat_pwa l) (a_pwa row) \<and>
        (no_score (cat_performance l) \<longrightarrow> a_performance row = Some 0) \<and>
        (no_score (cat_accessibility l) \<longrightarrow> a_accessibility row = Some 0) \<and>
        (no_score (cat_best_practices l) \<longrightarrow> a_best_practices row = Some 0) \<and>
        (no_score (cat_seo l) \<longrightarrow> a_seo row = Some 0) \<and>
        (no_score (cat_pwa l) \<longrightarrow> a_pwa row = Some 0)"
    using row(1,2) cols zero unfolding eq by simp
  then have "\<exists>row. find_row (snd result) aid = Some row \<and> a_status row = ''completed'' \<and>
        column_records mul (cat_performance l) (a_performance row) \<and>
        column_records mul (cat_accessibility l) (a_accessibility row) \<and>
        column_records mul (cat_best_practices l) (a_best_practices row) \<and>
        column_records mul (cat_seo l) (a_seo row) \<and>
        column_records mul (cat_pwa l) (a_pwa row) \<and>
        (no_score (cat_performance l) \<longrightarrow> a_performance row = Some 0) \<and>
        (no_score (cat_accessibility l) \<longrightarrow> a_accessibility row = Some 0) \<and>
        (no_score (cat_best_practices l) \<longrightarrow> a_best_practices row = Some 0) \<and>
        (no_score (cat_seo l) \<longrightarrow> a_seo row = Some 0) \<and>
        (no_score (cat_pwa l) \<longrightarrow> a_pwa row = Some 0)"
    by (rule exI)
  with rec compute_scores_percent [OF dp assms(2)] saved show ?thesis by simp
qed

lemma sample_mul_double_product: "double_product sample_mul"
  by (simp add: double_product_def sample_mul_def)

lemma sample_scores:
  "compute_scores sample_mul sample_lhr =
     \<lparr>performance = 75, accessibility = 100, best_practices = 0, seo = 50, pwa = 0\<rparr>"
  by (simp add: compute_scores_def sample_lhr_def sample_mul_def category_score_def js_round_def)

theorem scores_default_to_zero_witness:
  "double_product sample_mul \<and> lhr_ok sample_lhr \<and> truthy (q_url sample_request) \<and>
   sample_valid_url (js_str (q_url sample_request)) \<and> truthy (q_client_id sample_request) \<and>
   store_ok empty_store \<and>
   http_status (fst (audit_handler sample_valid_url sample_mul no_faults (Inr sample_lhr)
                       sample_request empty_store)) = 200 \<and>
   no_score (cat_best_practices sample_lhr) \<and> no_score (cat_pwa sample_lhr) \<and>
   map_option (\<lambda>r. [a_performance r, a_accessibility r, a_best_practices r, a_seo r, a_pwa r])
     (find_row (snd (audit_handler sample_valid_url sample_mul no_faults (Inr sample_lhr)
                       sample_request empty_store)) 1)
     = Some [Some 75, Some 100, Some 0, Some 50, Some 0]"
proof -
  have h: "lhr_ok sample_lhr" "truthy (q_url sample_request)"
    "sample_valid_url (js_str (q_url sample_request))" "truthy (q_client_id sample_request)"
    "store_ok empty_store"
    by (simp_all add: lhr_ok_def unit_score_def sample_lhr_def sample_request_def
        sample_valid_url_def truthy_def js_str_def store_ok_def empty_store_def)
  have ok: "http_status (fst (audit_handler sample_valid_url sample_mul no_faults
                       (Inr sample_lhr) sample_request empty_store)) = 200"
    by (simp add: audit_handler_valid [where valid_url = sample_valid_url, OF h(2,3)]
        create_record_inserted [OF h(4)] no_faults_def finish_audit_with_record)
  have aid: "(case fst (create_record no_faults sample_request (form_factor_of sample_request)
                          empty_store) of
                Some i \<Rightarrow> i
              | None \<Rightarrow> Suc (audits_seq (snd (create_record no_faults sample_request
                                  (form_factor_of sample_request) empty_store)))) = 1"
    by (simp add: create_record_inserted [OF h(4)] no_faults_def empty_store_def)
  have ns: "no_score (cat_best_practices sample_lhr)" "no_score (cat_pwa sample_lhr)"
    by (simp_all add: no_score_def sample_lhr_def)
  from scores_default_to_zero [where valid_url = sample_valid_url and faults = no_faults,
      OF sample_mul_double_product h refl refl ok refl]
  obtain row where row:
    "find_row (snd (audit_handler sample_valid_url sample_mul no_faults (Inr sample_lhr)
                       sample_request empty_store)) 1 = Some row"
    "column_records sample_mul (cat_performance sample_lhr) (a_performance row)"
    "column_records sample_mul (cat_accessibility sample_lhr) (a_accessibility row)"
    "column_records sample_mul (cat_seo sample_lhr) (a_seo row)"
    "a_best_practices row = Some 0" "a_pwa row = Some 0"
    unfolding aid using ns by auto
  have near: "real_of_int n = k" if "k - 1 / 2 < real_of_int n" "real_of_int n \<le> k + 1 / 2"
    "k \<in> \<int>" for n k
  proof -
    from that(3) obtain m where k: "k = real_of_int m" by (auto elim: Ints_cases)
    with that(1,2) have "real_of_int m - 1 / 2 < real_of_int n"
      "real_of_int n \<le> real_of_int m + 1 / 2" by simp_all
    then have "m \<le> n" "n \<le> m" by linarith+
    with k show ?thesis by simp
  qed
  from row(2) have "a_performance row = Some 75"
    using near [of 75] by (auto simp: column_records_def score_recorded_def sample_lhr_def
        sample_mul_def split: option.splits)
  moreover from row(3) have "a_accessibility row = Some 100"
    using near [of 100] by (auto simp: column_records_def score_recorded_def sample_lhr_def
        sample_mul_def split: option.splits)
  moreover from row(4) have "a_seo row = Some 50"
    using near [of 50] by (auto simp: column_records_def score_recorded_def sample_lhr_def
        sample_mul_def split: option.splits)
  ultimately show ?thesis
    using h ok ns row(1,5,6) sample_mul_double_product by simp
qed

end
